theory Spec2Isabelle
  imports Complex_Main "HOL-Library.AList"
begin

section \<open>The chart instance manager (\<^verbatim>\<open>useChartJSManager.ts\<close>)\<close>

text \<open>
  The manager runs on the single-threaded event loop of a browser. Its state is the two
  maps of the class, the window's resize listeners, the timer queue of the event loop
  (every \<^verbatim>\<open>setTimeout\<close> of the source), the variables captured by the closures that
  \<^verbatim>\<open>debounce\<close> returns, the promises handed out, and the chart objects of the charting
  engine. A JavaScript \<^verbatim>\<open>Map\<close> keeps insertion order, which \<^verbatim>\<open>forEach\<close> follows, so the
  maps are association lists. The calls made on the engine and on the console are written
  to a trace, in the order in which they happen.
\<close>

type_synonym ident = string
type_synonym handle = nat

datatype jsval = Num real | Str string | Bool bool | Arr "jsval list" | Obj "(string \<times> jsval) list"

text \<open>A \<^verbatim>\<open>ChartConfiguration\<close>: \<^verbatim>\<open>data\<close> and \<^verbatim>\<open>options\<close> may be left out.\<close>

record config =
  cfg_type :: string
  cfg_data :: "jsval option"
  cfg_options :: "(string \<times> jsval) list option"
  cfg_plugins :: "string list"

text \<open>A chart object of the engine: the canvas it draws on, its mutable \<^verbatim>\<open>options\<close> and
  \<^verbatim>\<open>data\<close>, and whether \<^verbatim>\<open>destroy()\<close> has been called on it.\<close>

record chart =
  canvas_id :: ident
  chart_options :: "(string \<times> jsval) list"
  chart_data :: "jsval option"
  destroyed :: bool

text \<open>What \<^verbatim>\<open>document.getElementById(id)\<close> followed by \<^verbatim>\<open>getContext("2d")\<close> gives.\<close>

datatype surface = NoElement | NoContext | Context2d

text \<open>The callbacks given to \<^verbatim>\<open>setTimeout\<close>, with the variables they capture:
  \<^verbatim>\<open>() => tryCreateChart(retryCount + 1)\<close> (identifier, configuration, the promise of the
  enclosing call, the next retry count), the deferred construction in \<^verbatim>\<open>spawnChart\<close>, and
  the callback inside \<^verbatim>\<open>debounce\<close> (the closure's \<^verbatim>\<open>timeoutId\<close> variable).\<close>

datatype task =
    TryCreateChart ident config nat nat
  | CreateChart ident config nat
  | DebounceFire nat

text \<open>Window resize listeners: the manager's \<^verbatim>\<open>resizeHandler\<close> (with its \<^verbatim>\<open>delay\<close>), and
  the listener of the gauge component, which calls \<^verbatim>\<open>resizeCharts\<close> directly.\<close>

datatype listener = ResizeHandler nat | DirectResize

datatype event =
    ChartDestroy handle
  | ChartConstruct handle ident
  | ChartUpdate handle "string option"
  | ConsoleWarn string ident
  | ConsoleError ident
  | ResizeChartsCalled nat

record state =
  chartInstances :: "(ident \<times> handle) list"
  initializingCharts :: "(ident \<times> bool) list"
  resizeHandler :: "nat option"
  listeners :: "(nat \<times> listener) list"
  next_listener :: nat
  timers :: "(nat \<times> nat \<times> task) list"
  next_timer :: nat
  clock :: nat
  cells :: "nat option list"
  promises :: "bool list"
  heap :: "chart list"
  trace :: "event list"

text \<open>The environment the manager cannot control: what the document holds when it is
  asked, and whether \<^verbatim>\<open>new Chart(ctx, config)\<close> returns or throws. Both may depend on the
  moment of the call.\<close>

record env =
  getElementById :: "state \<Rightarrow> ident \<Rightarrow> surface"
  chart_ctor_ok :: "state \<Rightarrow> ident \<Rightarrow> config \<Rightarrow> bool"

definition new_manager :: state where
  "new_manager = \<lparr> chartInstances = [], initializingCharts = [], resizeHandler = None,
     listeners = [], next_listener = 0, timers = [], next_timer = 1, clock = 0, cells = [],
     promises = [], heap = [], trace = [] \<rparr>"

subsection \<open>Timers, promises and the engine\<close>

text \<open>The timer queue is kept in the order in which the timers fire: by due time, and among
  equal due times in the order of the \<^verbatim>\<open>setTimeout\<close> calls.\<close>

fun enqueue :: "nat \<times> nat \<times> task \<Rightarrow> (nat \<times> nat \<times> task) list \<Rightarrow> (nat \<times> nat \<times> task) list" where
  "enqueue t [] = [t]"
| "enqueue t (u # us) = (if fst (snd t) < fst (snd u) then t # u # us else u # enqueue t us)"

definition setTimeout :: "task \<Rightarrow> nat \<Rightarrow> state \<Rightarrow> nat \<times> state" where
  "setTimeout cb delay st =
     (next_timer st,
      st\<lparr> timers := enqueue (next_timer st, clock st + delay, cb) (timers st),
          next_timer := Suc (next_timer st) \<rparr>)"

definition clearTimeout :: "nat \<Rightarrow> state \<Rightarrow> state" where
  "clearTimeout tid st = st\<lparr> timers := filter (\<lambda>t. fst t \<noteq> tid) (timers st) \<rparr>"

definition new_promise :: "bool \<Rightarrow> state \<Rightarrow> nat \<times> state" where
  "new_promise resolved st = (length (promises st), st\<lparr> promises := promises st @ [resolved] \<rparr>)"

definition resolve :: "nat \<Rightarrow> state \<Rightarrow> state" where
  "resolve p st = st\<lparr> promises := (promises st)[p := True] \<rparr>"

definition emit :: "event \<Rightarrow> state \<Rightarrow> state" where
  "emit e st = st\<lparr> trace := trace st @ [e] \<rparr>"

text \<open>\<^verbatim>\<open>chart.destroy()\<close> on the chart object behind a handle.\<close>

definition mark_destroyed :: "handle \<Rightarrow> chart list \<Rightarrow> chart list" where
  "mark_destroyed h hp = (if h < length hp then hp[h := (hp ! h)\<lparr> destroyed := True \<rparr>] else hp)"

definition chart_destroy :: "handle \<Rightarrow> state \<Rightarrow> state" where
  "chart_destroy h st = emit (ChartDestroy h) (st\<lparr> heap := mark_destroyed h (heap st) \<rparr>)"

definition chart_update :: "handle \<Rightarrow> string option \<Rightarrow> state \<Rightarrow> state" where
  "chart_update h mode st = emit (ChartUpdate h mode) st"

text \<open>\<^verbatim>\<open>new Chart(ctx, config)\<close> when it returns: a fresh chart object on the canvas, with
  the options and data of the configuration (the engine's own defaults are left out).\<close>

definition chart_new :: "ident \<Rightarrow> config \<Rightarrow> state \<Rightarrow> handle \<times> state" where
  "chart_new cid cfg st =
     (length (heap st),
      emit (ChartConstruct (length (heap st)) cid)
        (st\<lparr> heap := heap st @
               [\<lparr> canvas_id = cid,
                  chart_options = (case cfg_options cfg of None \<Rightarrow> [] | Some os \<Rightarrow> os),
                  chart_data = cfg_data cfg, destroyed = False \<rparr>] \<rparr>))"

subsection \<open>The operations of \<^verbatim>\<open>ChartManager\<close>\<close>

definition getChart :: "state \<Rightarrow> ident \<Rightarrow> handle option" where
  "getChart st cid = map_of (chartInstances st) cid"

definition resizeCharts :: "state \<Rightarrow> state" where
  "resizeCharts st =
     foldl (\<lambda>s (cid, h). chart_update h (Some ''resize'') s)
       (emit (ResizeChartsCalled (clock st)) st) (chartInstances st)"

text \<open>\<^verbatim>\<open>tryCreateChart(retryCount)\<close> inside \<^verbatim>\<open>spawnChart(id, config)\<close>, whose promise is \<open>p\<close>.\<close>

definition tryCreateChart :: "env \<Rightarrow> ident \<Rightarrow> config \<Rightarrow> nat \<Rightarrow> nat \<Rightarrow> state \<Rightarrow> state" where
  "tryCreateChart e cid cfg p retryCount st =
     (case getElementById e st cid of
        NoElement \<Rightarrow>
          if retryCount < 10
          then snd (setTimeout (TryCreateChart cid cfg p (retryCount + 1)) 50 st)
          else resolve p
                 ((emit (ConsoleWarn ''Canvas not found after retries'' cid) st)
                    \<lparr> initializingCharts := AList.delete cid (initializingCharts st) \<rparr>)
      | NoContext \<Rightarrow>
          if retryCount < 20
          then snd (setTimeout (TryCreateChart cid cfg p (retryCount + 1)) 100 st)
          else resolve p
                 ((emit (ConsoleWarn ''Cannot acquire context'' cid) st)
                    \<lparr> initializingCharts := AList.delete cid (initializingCharts st) \<rparr>)
      | Context2d \<Rightarrow>
          snd (setTimeout (CreateChart cid cfg p) 0
                 (case map_of (chartInstances st) cid of
                    None \<Rightarrow> st
                  | Some existingChart \<Rightarrow>
                      (chart_destroy existingChart st)
                        \<lparr> chartInstances := AList.delete cid (chartInstances st) \<rparr>)))"

text \<open>The callback of \<^verbatim>\<open>setTimeout(..., 0)\<close>: \<^verbatim>\<open>try { new Chart; set } catch { log }
  finally { delete flag; resolve }\<close>.\<close>

definition createChart :: "env \<Rightarrow> ident \<Rightarrow> config \<Rightarrow> nat \<Rightarrow> state \<Rightarrow> state" where
  "createChart e cid cfg p st =
     (let st1 = (if chart_ctor_ok e st cid cfg
                 then (let (h, s) = chart_new cid cfg st
                       in s\<lparr> chartInstances := AList.update cid h (chartInstances s) \<rparr>)
                 else emit (ConsoleError cid) st)
      in resolve p (st1\<lparr> initializingCharts := AList.delete cid (initializingCharts st1) \<rparr>))"

definition spawnChart :: "env \<Rightarrow> ident \<Rightarrow> config \<Rightarrow> state \<Rightarrow> nat \<times> state" where
  "spawnChart e cid cfg st =
     (if map_of (initializingCharts st) cid = Some True
      then new_promise True st
      else (let (p, st1) = new_promise False
                  (st\<lparr> initializingCharts := AList.update cid True (initializingCharts st) \<rparr>)
            in (p, tryCreateChart e cid cfg p 0 st1)))"

fun spawnCharts :: "env \<Rightarrow> (ident \<times> config) list \<Rightarrow> state \<Rightarrow> nat list \<times> state" where
  "spawnCharts e [] st = ([], st)"
| "spawnCharts e ((cid, cfg) # configs) st =
     (let (p, st1) = spawnChart e cid cfg st;
          (ps, st2) = spawnCharts e configs st1
      in (p # ps, st2))"

text \<open>\<^verbatim>\<open>Object.assign(target, source)\<close> on plain objects: every key of the source is written
  to the target, in the source's order.\<close>

definition object_assign :: "(string \<times> jsval) list \<Rightarrow> (string \<times> jsval) list \<Rightarrow> (string \<times> jsval) list" where
  "object_assign target source = foldl (\<lambda>t (k, v). AList.update k v t) target source"

definition updateChartConfig :: "ident \<Rightarrow> config \<Rightarrow> state \<Rightarrow> nat \<times> state" where
  "updateChartConfig cid cfg st =
     new_promise True
       (case map_of (chartInstances st) cid of
          None \<Rightarrow> st
        | Some h \<Rightarrow>
            chart_update h None
              (st\<lparr> heap := (if h < length (heap st)
                              then (heap st)[h := (heap st ! h)
                                     \<lparr> chart_options :=
                                         object_assign (chart_options (heap st ! h))
                                           (case cfg_options cfg of None \<Rightarrow> [] | Some os \<Rightarrow> os),
                                       chart_data :=
                                         (case cfg_data cfg of None \<Rightarrow> chart_data (heap st ! h)
                                          | Some d \<Rightarrow> Some d) \<rparr>]
                              else heap st) \<rparr>))"

fun updateAllCharts :: "(ident \<times> config) list \<Rightarrow> state \<Rightarrow> nat list \<times> state" where
  "updateAllCharts [] st = ([], st)"
| "updateAllCharts ((cid, cfg) # configs) st =
     (let (p, st1) = updateChartConfig cid cfg st;
          (ps, st2) = updateAllCharts configs st1
      in (p # ps, st2))"

text \<open>\<^verbatim>\<open>debounce(func, delay)\<close> allocates the variable \<^verbatim>\<open>timeoutId\<close>, initially null, and
  returns the closure over it; \<open>debounced\<close> is a call of that closure. The only \<^verbatim>\<open>func\<close>
  ever passed is the one that calls \<^verbatim>\<open>resizeCharts\<close>. Timer identifiers are positive, so
  a stored identifier passes the test \<^verbatim>\<open>if (timeoutId)\<close>.\<close>

definition debounce :: "state \<Rightarrow> nat \<times> state" where
  "debounce st = (length (cells st), st\<lparr> cells := cells st @ [None] \<rparr>)"

definition debounced :: "nat \<Rightarrow> nat \<Rightarrow> state \<Rightarrow> state" where
  "debounced c delay st =
     (let st1 = (case cells st ! c of None \<Rightarrow> st | Some tid \<Rightarrow> clearTimeout tid st);
          (tid, st2) = setTimeout (DebounceFire c) delay st1
      in st2\<lparr> cells := (cells st2)[c := Some tid] \<rparr>)"

definition debounceFire :: "nat \<Rightarrow> state \<Rightarrow> state" where
  "debounceFire c st = (let st1 = resizeCharts st in st1\<lparr> cells := (cells st1)[c := None] \<rparr>)"

text \<open>The body of \<^verbatim>\<open>this.resizeHandler\<close>: a new debounced function on every call.\<close>

definition resizeHandler_body :: "nat \<Rightarrow> state \<Rightarrow> state" where
  "resizeHandler_body delay st = (let (c, st1) = debounce st in debounced c delay st1)"

text \<open>Every function object handed to \<^verbatim>\<open>addEventListener\<close> is a new closure; the counter
  \<open>next_listener\<close> gives it its identity, by which \<^verbatim>\<open>removeEventListener\<close> finds it.\<close>

definition addEventListener :: "listener \<Rightarrow> state \<Rightarrow> nat \<times> state" where
  "addEventListener l st =
     (next_listener st,
      st\<lparr> listeners := listeners st @ [(next_listener st, l)],
          next_listener := Suc (next_listener st) \<rparr>)"

definition setupResizeListener :: "nat \<Rightarrow> state \<Rightarrow> state" where
  "setupResizeListener delay st =
     (let (l, st1) = addEventListener (ResizeHandler delay) st
      in st1\<lparr> resizeHandler := Some l \<rparr>)"

definition removeEventListener :: "nat \<Rightarrow> state \<Rightarrow> state" where
  "removeEventListener l st = st\<lparr> listeners := filter (\<lambda>x. fst x \<noteq> l) (listeners st) \<rparr>"

text \<open>The first statement of \<^verbatim>\<open>dispose\<close>: \<^verbatim>\<open>if (this.resizeHandler) removeEventListener(...)\<close>.\<close>

definition remove_resizeHandler :: "state \<Rightarrow> state" where
  "remove_resizeHandler st =
     (case resizeHandler st of None \<Rightarrow> st | Some l \<Rightarrow> removeEventListener l st)"

text \<open>\<^verbatim>\<open>forEach\<close> visits every entry of the map, also when the callback deletes the entry
  it is called on.\<close>

definition dispose :: "state \<Rightarrow> state" where
  "dispose st =
     foldl (\<lambda>s (cid, h). (chart_destroy h s)\<lparr> chartInstances := AList.delete cid (chartInstances s) \<rparr>)
       (remove_resizeHandler st) (chartInstances st)"

definition disposeChart :: "ident \<Rightarrow> state \<Rightarrow> state" where
  "disposeChart cid st =
     (case map_of (chartInstances st) cid of
        None \<Rightarrow> st
      | Some h \<Rightarrow> (chart_destroy h st)\<lparr> chartInstances := AList.delete cid (chartInstances st) \<rparr>)"

subsection \<open>The event loop\<close>

fun run_listener :: "listener \<Rightarrow> state \<Rightarrow> state" where
  "run_listener (ResizeHandler delay) st = resizeHandler_body delay st"
| "run_listener DirectResize st = resizeCharts st"

text \<open>A resize event of the window runs the listeners installed at that moment, in order.\<close>

definition resize_event :: "state \<Rightarrow> state" where
  "resize_event st = foldl (\<lambda>s (l, f). run_listener f s) st (listeners st)"

fun run_task :: "env \<Rightarrow> task \<Rightarrow> state \<Rightarrow> state" where
  "run_task e (TryCreateChart cid cfg p n) st = tryCreateChart e cid cfg p n st"
| "run_task e (CreateChart cid cfg p) st = createChart e cid cfg p st"
| "run_task e (DebounceFire c) st = debounceFire c st"

text \<open>The next timer fires: it leaves the queue, the clock reaches its due time, its
  callback runs.\<close>

definition fire :: "env \<Rightarrow> state \<Rightarrow> state" where
  "fire e st =
     (case timers st of
        [] \<Rightarrow> st
      | (tid, due, cb) # rest \<Rightarrow> run_task e cb (st\<lparr> timers := rest, clock := max (clock st) due \<rparr>))"

text \<open>Every callback can arm only a bounded number of further timers: a retry counts its
  retries up to 20 and then stops or hands over to the construction, which arms nothing.\<close>

fun task_weight :: "task \<Rightarrow> nat" where
  "task_weight (TryCreateChart cid cfg p n) = 2 + (20 - n)"
| "task_weight (CreateChart cid cfg p) = 1"
| "task_weight (DebounceFire c) = 1"

definition pending_weight :: "state \<Rightarrow> nat" where
  "pending_weight st = sum_list (map (\<lambda>t. task_weight (snd (snd t))) (timers st))"

definition idle :: "nat option \<Rightarrow> state \<Rightarrow> state" where
  "idle limit st = (case limit of None \<Rightarrow> st | Some t \<Rightarrow> st\<lparr> clock := max (clock st) t \<rparr>)"

definition due_within :: "nat option \<Rightarrow> state \<Rightarrow> bool" where
  "due_within limit st =
     (case timers st of
        [] \<Rightarrow> False
      | t # rest \<Rightarrow> (case limit of None \<Rightarrow> True | Some l \<Rightarrow> fst (snd t) \<le> l))"

lemma sum_list_enqueue:
  fixes f :: "nat \<times> nat \<times> task \<Rightarrow> nat"
  shows "sum_list (map f (enqueue t ts)) = f t + sum_list (map f ts)"
  by (induction ts) auto

lemma pending_weight_setTimeout:
  "pending_weight (snd (setTimeout cb d st)) = task_weight cb + pending_weight st"
  by (simp add: pending_weight_def setTimeout_def sum_list_enqueue)

lemma timers_resolve [simp]: "timers (resolve p st) = timers st"
  by (simp add: resolve_def)

lemma timers_emit [simp]: "timers (emit ev st) = timers st"
  by (simp add: emit_def)

lemma timers_chart_destroy [simp]: "timers (chart_destroy h st) = timers st"
  by (simp add: chart_destroy_def)

lemma timers_chart_update [simp]: "timers (chart_update h m st) = timers st"
  by (simp add: chart_update_def)

lemma timers_chart_new [simp]: "timers (snd (chart_new cid cfg st)) = timers st"
  by (simp add: chart_new_def)

lemma timers_resizeCharts [simp]: "timers (resizeCharts st) = timers st"
proof -
  have "timers (foldl (\<lambda>s (cid, h). chart_update h m s) s0 xs) = timers s0"
    for m s0 and xs :: "(ident \<times> handle) list"
    by (induction xs arbitrary: s0) (auto simp: case_prod_beta)
  then show ?thesis by (simp add: resizeCharts_def)
qed

lemma pending_weight_giveup:
  "pending_weight (resolve p ((emit ev st)\<lparr> initializingCharts := fl \<rparr>)) = pending_weight st"
  by (simp add: pending_weight_def)

lemma pending_weight_teardown:
  "pending_weight ((chart_destroy h st)\<lparr> chartInstances := r \<rparr>) = pending_weight st"
  by (simp add: pending_weight_def)

lemma pending_weight_tryCreateChart:
  "pending_weight (tryCreateChart e cid cfg p n st) < 2 + (20 - n) + pending_weight st"
proof (cases "getElementById e st cid")
  case NoElement
  then show ?thesis
    by (auto simp: tryCreateChart_def pending_weight_setTimeout pending_weight_giveup)
next
  case NoContext
  then show ?thesis
    by (auto simp: tryCreateChart_def pending_weight_setTimeout pending_weight_giveup)
next
  case Context2d
  then show ?thesis
    by (auto simp: tryCreateChart_def pending_weight_setTimeout pending_weight_teardown
             split: option.splits)
qed

lemma pending_weight_createChart:
  "pending_weight (createChart e cid cfg p st) = pending_weight st"
  by (simp add: createChart_def pending_weight_def Let_def case_prod_beta)

lemma pending_weight_debounceFire:
  "pending_weight (debounceFire c st) = pending_weight st"
  by (simp add: debounceFire_def pending_weight_def Let_def)

lemma pending_weight_run_task:
  "pending_weight (run_task e cb st) < task_weight cb + pending_weight st"
proof (cases cb)
  case (TryCreateChart cid cfg p n)
  then show ?thesis using pending_weight_tryCreateChart [of e cid cfg p n st] by simp
next
  case (CreateChart cid cfg p)
  then show ?thesis by (simp add: pending_weight_createChart)
next
  case (DebounceFire c)
  then show ?thesis by (simp add: pending_weight_debounceFire)
qed

lemma pending_weight_fire:
  assumes "timers st \<noteq> []"
  shows "pending_weight (fire e st) < pending_weight st"
proof -
  from assms obtain tid due cb rest where ts: "timers st = (tid, due, cb) # rest"
    by (cases "timers st") auto
  have "pending_weight (run_task e cb (st\<lparr> timers := rest, clock := max (clock st) due \<rparr>))
          < task_weight cb + pending_weight (st\<lparr> timers := rest, clock := max (clock st) due \<rparr>)"
    by (rule pending_weight_run_task)
  then show ?thesis using ts by (simp add: fire_def pending_weight_def)
qed

text \<open>The event loop runs the timers that are due up to \<open>limit\<close> (all of them when there is
  no limit), each at its due time, and then rests at the limit.\<close>

function run_until :: "env \<Rightarrow> nat option \<Rightarrow> state \<Rightarrow> state" where
  "run_until e limit st =
     (if due_within limit st then run_until e limit (fire e st) else idle limit st)"
  by pat_completeness auto
termination
proof (relation "measure (\<lambda>(e, limit, st). pending_weight st)")
  show "wf (measure (\<lambda>(e, limit, st). pending_weight st))" by simp
next
  fix e :: env and limit :: "nat option" and st :: state
  assume "due_within limit st"
  then have "timers st \<noteq> []" by (auto simp: due_within_def)
  then show "((e, limit, fire e st), (e, limit, st)) \<in> measure (\<lambda>(e, limit, st). pending_weight st)"
    by (simp add: pending_weight_fire)
qed

declare run_until.simps [simp del]

lemma run_until_fire:
  "due_within limit st \<Longrightarrow> run_until e limit st = run_until e limit (fire e st)"
  by (subst run_until.simps) simp

lemma run_until_idle:
  "\<not> due_within limit st \<Longrightarrow> run_until e limit st = idle limit st"
  by (subst run_until.simps) simp

section \<open>The gauge component (\<^verbatim>\<open>PowerUsageGauge.vue\<close>)\<close>

text \<open>
  JavaScript numbers are IEEE doubles. They are modelled as real numbers, so what is proved
  about the values of ticks and angles is about the formulas of the source, without the
  rounding of floating-point arithmetic. Lengths, orders of calls and control flow do not
  depend on that.
\<close>

subsection \<open>Tick values\<close>

text \<open>\<^verbatim>\<open>parseFloat(x.toFixed(2))\<close>: the nearest multiple of 0.01, a tie going away from zero.\<close>

definition toFixed2 :: "real \<Rightarrow> real" where
  "toFixed2 x =
     (if x < 0 then - (of_int \<lfloor>- x * 100 + 1 / 2\<rfloor> / 100) else of_int \<lfloor>x * 100 + 1 / 2\<rfloor> / 100)"

definition majorTickValues :: "real list" where
  "majorTickValues = [1, 1.2, 1.4, 1.6, 1.8, 2, 2.2, 2.4, 2.6, 2.8, 3]"

definition subStepCount :: nat where
  "subStepCount = 4"

text \<open>The inner loop \<^verbatim>\<open>for (s = 1; s < subStepCount; s++)\<close> between \<open>prev\<close> and \<open>cur\<close>
  (the source's \<^verbatim>\<open>curr\<close>).\<close>

definition sub_ticks :: "real \<Rightarrow> real \<Rightarrow> nat \<Rightarrow> real list" where
  "sub_ticks prev cur k =
     map (\<lambda>s. toFixed2 (prev + ((cur - prev) * of_nat s) / of_nat k)) [1..<k]"

text \<open>One round of the outer loop, at index \<open>i\<close>: push the major value, then (unless
  \<open>i = 0\<close>) the values between the previous major value and this one.\<close>

definition tick_round :: "real list \<Rightarrow> nat \<Rightarrow> real list \<Rightarrow> nat \<Rightarrow> real list" where
  "tick_round M k acc i =
     (if i = 0 then acc @ [M ! i]
      else acc @ [M ! i] @ sub_ticks (M ! (i - 1)) (M ! i) k)"

definition tick_values :: "real list \<Rightarrow> nat \<Rightarrow> real list" where
  "tick_values M k = foldl (tick_round M k) [] [0..<length M]"

definition fullTickValues :: "real list" where
  "fullTickValues = tick_values majorTickValues subStepCount"

subsection \<open>The overlay \<^verbatim>\<open>gaugeTickPlugin.afterDraw\<close>\<close>

text \<open>The calls on the 2D context, in order. A label is recorded as the number that
  \<^verbatim>\<open>val.toFixed(1)\<close> prints.\<close>

datatype draw =
    Save | Restore
  | LineWidth real | StrokeStyle string | FillStyle string | Font string
  | TextAlign string | TextBaseline string
  | BeginPath | MoveTo real real | LineTo real real | Stroke
  | FillText real real real
  | ArcTo real real real real real | Fill

record arc =
  arc_x :: real
  arc_y :: real
  innerRadius :: real

record dataset =
  rotation :: "real option"
  circumference :: "real option"

record segment =
  seg_from :: real
  seg_to :: real

definition minValue :: real where "minValue = 1"
definition maxValue :: real where "maxValue = 3"

definition plugin_majorTickValues :: "real list" where
  "plugin_majorTickValues = [1, 1.2, 1.4, 1.6, 1.8, 2, 2.2, 2.4, 2.6, 2.8, 3]"

definition plugin_subStepCount :: nat where
  "plugin_subStepCount = 5"

definition segments :: "segment list" where
  "segments = [\<lparr> seg_from = 1, seg_to = 1.4 \<rparr>, \<lparr> seg_from = 1.4, seg_to = 1.8 \<rparr>,
               \<lparr> seg_from = 1.8, seg_to = 3 \<rparr>]"

definition rotationRad :: "dataset \<Rightarrow> real" where
  "rotationRad ds = ((case rotation ds of None \<Rightarrow> 0 | Some r \<Rightarrow> r) * pi) / 88.4"

definition circumferenceRad :: "dataset \<Rightarrow> real" where
  "circumferenceRad ds = ((case circumference ds of None \<Rightarrow> 360 | Some c \<Rightarrow> c) * pi) / 180"

text \<open>\<^verbatim>\<open>Array.prototype.indexOf\<close>: the first index of the value, or -1.\<close>

fun indexOf :: "real list \<Rightarrow> real \<Rightarrow> int" where
  "indexOf [] v = - 1"
| "indexOf (x # xs) v = (if x = v then 0 else (let i = indexOf xs v in if i < 0 then - 1 else i + 1))"

definition toFixed1 :: "real \<Rightarrow> real" where
  "toFixed1 x =
     (if x < 0 then - (of_int \<lfloor>- x * 10 + 1 / 2\<rfloor> / 10) else of_int \<lfloor>x * 10 + 1 / 2\<rfloor> / 10)"

text \<open>A radial line between two radii at an angle, around the centre \<open>(x, y)\<close>.\<close>

definition radial_line :: "real \<Rightarrow> real \<Rightarrow> real \<Rightarrow> real \<Rightarrow> real \<Rightarrow> draw list" where
  "radial_line x y rStart rEnd angle =
     [BeginPath, MoveTo (x + rStart * cos angle) (y + rStart * sin angle),
      LineTo (x + rEnd * cos angle) (y + rEnd * sin angle), Stroke]"

definition minor_ticks :: "arc \<Rightarrow> segment \<Rightarrow> real \<Rightarrow> real \<Rightarrow> real \<Rightarrow> real \<Rightarrow> draw list" where
  "minor_ticks a sg currentStartAngle segmentArc prevVal val =
     concat (map (\<lambda>s.
        (let subVal = prevVal + ((val - prevVal) * of_nat s) / of_nat plugin_subStepCount in
         if subVal < seg_from sg \<or> subVal > seg_to sg then []
         else (let subT = (subVal - seg_from sg) / (seg_to sg - seg_from sg);
                   subAngle = currentStartAngle + subT * segmentArc
               in radial_line (arc_x a) (arc_y a) (innerRadius a - 5) (innerRadius a - 12) subAngle)))
       [1..<plugin_subStepCount])"

definition major_tick :: "arc \<Rightarrow> segment \<Rightarrow> real \<Rightarrow> real \<Rightarrow> real \<Rightarrow> draw list" where
  "major_tick a sg currentStartAngle segmentArc val =
     (if val < seg_from sg \<or> val > seg_to sg then []
      else (let t = (val - seg_from sg) / (seg_to sg - seg_from sg);
                angle = currentStartAngle + t * segmentArc;
                prevIndex = indexOf plugin_majorTickValues val - 1
            in radial_line (arc_x a) (arc_y a) (innerRadius a - 5) (innerRadius a - 20) angle
               @ [FillText (toFixed1 val)
                    (arc_x a + (innerRadius a - 35) * cos angle)
                    (arc_y a + (innerRadius a - 35) * sin angle)]
               @ (if prevIndex \<ge> 0
                  then minor_ticks a sg currentStartAngle segmentArc
                         (plugin_majorTickValues ! nat prevIndex) val
                  else [])))"

text \<open>\<^verbatim>\<open>segments.forEach\<close>: the state of the loop is the running start angle and what has
  been drawn.\<close>

definition segment_round :: "arc \<Rightarrow> real \<Rightarrow> real \<times> draw list \<Rightarrow> segment \<Rightarrow> real \<times> draw list" where
  "segment_round a circ acc sg =
     (let currentStartAngle = fst acc;
          segmentArc = ((seg_to sg - seg_from sg) / (maxValue - minValue)) * circ
      in (currentStartAngle + segmentArc,
          snd acc @ concat (map (major_tick a sg currentStartAngle segmentArc) plugin_majorTickValues)))"

definition pointerAngle :: "dataset \<Rightarrow> real \<Rightarrow> real" where
  "pointerAngle ds v =
     rotationRad ds + ((v - minValue) / (maxValue - minValue)) * circumferenceRad ds"

definition pointer :: "arc \<Rightarrow> dataset \<Rightarrow> real \<Rightarrow> draw list" where
  "pointer a ds v =
     (let pointerLength = innerRadius a - 45;
          px = arc_x a + pointerLength * cos (pointerAngle ds v);
          py = arc_y a + pointerLength * sin (pointerAngle ds v)
      in [LineWidth 3, StrokeStyle ''#fff'', BeginPath, MoveTo (arc_x a) (arc_y a), LineTo px py,
          Stroke, FillStyle ''#fff'', BeginPath, ArcTo (arc_x a) (arc_y a) 5 0 (pi * 2), Fill])"

text \<open>\<^verbatim>\<open>afterDraw(chart)\<close>: the first arc element of the first dataset (absent before the
  layout), the dataset's settings and the current pointer value give the calls on the
  context. \<^verbatim>\<open>!x\<close> holds of the number 0.\<close>

definition afterDraw :: "arc option \<Rightarrow> dataset \<Rightarrow> real \<Rightarrow> draw list" where
  "afterDraw first_arc ds v =
     (case first_arc of
        None \<Rightarrow> []
      | Some a \<Rightarrow>
          if arc_x a = 0 \<or> arc_y a = 0 then []
          else [Save, LineWidth 2, StrokeStyle ''#ffffff88'', FillStyle ''#fff'', Font ''12px Arial'',
                TextAlign ''center'', TextBaseline ''middle'']
               @ snd (foldl (segment_round a (circumferenceRad ds)) (rotationRad ds, []) segments)
               @ pointer a ds v
               @ [Restore])"

subsection \<open>The component\<close>

text \<open>The script's variables: the manager from \<^verbatim>\<open>useChartManager()\<close>, \<^verbatim>\<open>chartInstance\<close>
  (initially null) and the ref \<^verbatim>\<open>value\<close>.\<close>

record component =
  chartManager :: state
  chartInstance :: "handle option"
  value_ref :: real

definition gaugeConfig :: config where
  "gaugeConfig =
     \<lparr> cfg_type = ''doughnut'',
       cfg_data = Some (Obj
         [(''labels'', Arr [Str ''1-1.4'', Str ''1.4-1.8'', Str ''1.8-3'']),
          (''datasets'', Arr [Obj
             [(''data'', Arr [Num (1.4 - 1), Num (1.8 - 1.4), Num (3 - 1.8)]),
              (''backgroundColor'', Arr [Str ''#72BD4F'', Str ''#F2A93B'', Str ''#CF5C58'']),
              (''borderWidth'', Num 0),
              (''circumference'', Num 200),
              (''rotation'', Num 260),
              (''cutout'', Str ''80%'')]])]),
       cfg_options = Some
         [(''responsive'', Bool True),
          (''maintainAspectRatio'', Bool False),
          (''plugins'', Obj [(''legend'', Obj [(''display'', Bool False)]),
                            (''tooltip'', Obj [(''enabled'', Bool False)])])],
       cfg_plugins = [''gaugeTickPlugin''] \<rparr>"

text \<open>\<^verbatim>\<open>initChart()\<close>: \<^verbatim>\<open>spawnCharts\<close> is not awaited, and \<^verbatim>\<open>getChart\<close> is called right after
  it returns its promise.\<close>

definition initChart :: "env \<Rightarrow> component \<Rightarrow> component" where
  "initChart e c =
     (let st1 = dispose (chartManager c);
          (ps, st2) = spawnCharts e [(''powerGauge'', gaugeConfig)] st1
      in c\<lparr> chartManager := st2, chartInstance := getChart st2 ''powerGauge'' \<rparr>)"

text \<open>The callback of \<^verbatim>\<open>watch(value, ...)\<close>.\<close>

definition watch_callback :: "component \<Rightarrow> component" where
  "watch_callback c =
     (case chartInstance c of
        None \<Rightarrow> c
      | Some h \<Rightarrow> c\<lparr> chartManager := chart_update h None (chartManager c) \<rparr>)"

text \<open>An assignment to \<^verbatim>\<open>value.value\<close>: the watcher runs when the value has changed.\<close>

definition set_value :: "real \<Rightarrow> component \<Rightarrow> component" where
  "set_value v c = (if v = value_ref c then c else watch_callback (c\<lparr> value_ref := v \<rparr>))"

text \<open>Mounting runs the \<^verbatim>\<open>onMounted\<close> hooks in the order of their registration: the one of
  \<^verbatim>\<open>useChartManager\<close> (\<^verbatim>\<open>setupResizeListener()\<close> with the default delay 300), then the
  component's own.\<close>

definition mount :: "env \<Rightarrow> real \<Rightarrow> component" where
  "mount e v =
     (let c1 = initChart e
                \<lparr> chartManager = setupResizeListener 300 new_manager, chartInstance = None,
                  value_ref = v \<rparr>
      in c1\<lparr> chartManager := snd (addEventListener DirectResize (chartManager c1)) \<rparr>)"

section \<open>Runs of the manager\<close>

text \<open>What can happen to a manager: a call of one of its public methods, a listener added
  by the component, a resize event of the window, and time passing, during which the due
  timers fire.\<close>

datatype action =
    CallSpawnCharts "(ident \<times> config) list"
  | CallUpdateChartConfig ident config
  | CallUpdateAllCharts "(ident \<times> config) list"
  | CallResizeCharts
  | CallSetupResizeListener nat
  | CallDispose
  | CallDisposeChart ident
  | AddDirectResizeListener
  | WindowResize
  | RunUntil "nat option"

primrec perform :: "env \<Rightarrow> action \<Rightarrow> state \<Rightarrow> state" where
  "perform e (CallSpawnCharts configs) st = snd (spawnCharts e configs st)"
| "perform e (CallUpdateChartConfig cid cfg) st = snd (updateChartConfig cid cfg st)"
| "perform e (CallUpdateAllCharts configs) st = snd (updateAllCharts configs st)"
| "perform e CallResizeCharts st = resizeCharts st"
| "perform e (CallSetupResizeListener delay) st = setupResizeListener delay st"
| "perform e CallDispose st = dispose st"
| "perform e (CallDisposeChart cid) st = disposeChart cid st"
| "perform e AddDirectResizeListener st = snd (addEventListener DirectResize st)"
| "perform e WindowResize st = resize_event st"
| "perform e (RunUntil limit) st = run_until e limit st"

definition run_script :: "env \<Rightarrow> action list \<Rightarrow> state \<Rightarrow> state" where
  "run_script e as st = foldl (\<lambda>s a. perform e a s) st as"

text \<open>The charts on a canvas that have been constructed and not destroyed, and the number
  of charts that have been constructed on a canvas so far.\<close>

definition live_handles :: "state \<Rightarrow> ident \<Rightarrow> handle list" where
  "live_handles st cid =
     filter (\<lambda>h. canvas_id (heap st ! h) = cid \<and> \<not> destroyed (heap st ! h)) [0..<length (heap st)]"

fun constructs_on :: "ident \<Rightarrow> event \<Rightarrow> bool" where
  "constructs_on cid (ChartConstruct h c) = (c = cid)"
| "constructs_on cid ev = False"

definition constructions :: "state \<Rightarrow> ident \<Rightarrow> nat" where
  "constructions st cid = length (filter (constructs_on cid) (trace st))"

text \<open>An environment in which every canvas is in the document with its 2D context and
  the engine's constructor returns.\<close>

definition ready_env :: env where
  "ready_env = \<lparr> getElementById = (\<lambda>st cid. Context2d), chart_ctor_ok = (\<lambda>st cid cfg. True) \<rparr>"

subsection \<open>Scenarios\<close>

text \<open>A burst of five resize events, 20 ms apart, on a manager whose listener was set up
  with the delay 200; then the timers run.\<close>

definition resize_burst :: "action list" where
  "resize_burst =
     [CallSetupResizeListener 200, WindowResize, RunUntil (Some 20), WindowResize,
      RunUntil (Some 40), WindowResize, RunUntil (Some 60), WindowResize, RunUntil (Some 80),
      WindowResize, RunUntil None]"

text \<open>A manager on which the gauge's chart has been created, one on which its creation is
  in flight, and a configuration that carries options and no data.\<close>

definition gauge_running :: state where
  "gauge_running =
     run_script ready_env [CallSpawnCharts [(''powerGauge'', gaugeConfig)], RunUntil None] new_manager"

definition in_flight :: state where
  "in_flight = snd (spawnChart ready_env ''powerGauge'' gaugeConfig new_manager)"

definition options_only :: config where
  "options_only =
     \<lparr> cfg_type = ''doughnut'', cfg_data = None,
       cfg_options = Some [(''responsive'', Bool False), (''animation'', Bool False)],
       cfg_plugins = [] \<rparr>"

text \<open>Environments for the ways in which a creation fails: the constructor throws, the
  canvas never appears, the canvas never gives a context.\<close>

definition throwing_env :: env where
  "throwing_env = \<lparr> getElementById = (\<lambda>st cid. Context2d), chart_ctor_ok = (\<lambda>st cid cfg. False) \<rparr>"

definition no_canvas_env :: env where
  "no_canvas_env = \<lparr> getElementById = (\<lambda>st cid. NoElement), chart_ctor_ok = (\<lambda>st cid cfg. True) \<rparr>"

definition no_context_env :: env where
  "no_context_env = \<lparr> getElementById = (\<lambda>st cid. NoContext), chart_ctor_ok = (\<lambda>st cid cfg. True) \<rparr>"

text \<open>A document in which the canvas appears at 50 ms, and a manager that was asked for the
  gauge's chart at 0 ms, found no canvas and scheduled its first retry for 50 ms.\<close>

definition late_canvas_env :: env where
  "late_canvas_env =
     \<lparr> getElementById = (\<lambda>st cid. if clock st < 50 then NoElement else Context2d),
       chart_ctor_ok = (\<lambda>st cid cfg. True) \<rparr>"

definition retry_scheduled :: state where
  "retry_scheduled =
     run_script late_canvas_env
       [CallSpawnCharts [(''powerGauge'', gaugeConfig)], RunUntil (Some 10)] new_manager"

text \<open>The gauge's chart is created, and later asked for again.\<close>

definition respawn :: "action list" where
  "respawn =
     [CallSpawnCharts [(''powerGauge'', gaugeConfig)], RunUntil None,
      CallSpawnCharts [(''powerGauge'', gaugeConfig)], RunUntil None]"

subsection \<open>Pending creations\<close>

text \<open>The callbacks of a creation for the canvas \<open>cid\<close>, and those of the call of
  \<^verbatim>\<open>spawnChart\<close> whose promise is \<open>p\<close>.\<close>

fun creates_on :: "ident \<Rightarrow> task \<Rightarrow> bool" where
  "creates_on cid (TryCreateChart c cfg p n) = (c = cid)"
| "creates_on cid (CreateChart c cfg p) = (c = cid)"
| "creates_on cid (DebounceFire c) = False"

fun settles :: "ident \<Rightarrow> nat \<Rightarrow> task \<Rightarrow> bool" where
  "settles cid p (TryCreateChart c cfg q n) = (c = cid \<and> q = p)"
| "settles cid p (CreateChart c cfg q) = (c = cid \<and> q = p)"
| "settles cid p (DebounceFire c) = False"

definition pending_creations :: "state \<Rightarrow> ident \<Rightarrow> nat" where
  "pending_creations st cid = length (filter (\<lambda>t. creates_on cid (snd (snd t))) (timers st))"

text \<open>A call of \<^verbatim>\<open>spawnChart\<close> is settled when its promise is resolved and the flag of its
  identifier is gone; it is in progress while one of its callbacks is in the timer queue.\<close>

definition settled :: "ident \<Rightarrow> nat \<Rightarrow> state \<Rightarrow> bool" where
  "settled cid p st \<longleftrightarrow>
     p < length (promises st) \<and> promises st ! p \<and> map_of (initializingCharts st) cid = None"

definition in_progress :: "ident \<Rightarrow> nat \<Rightarrow> state \<Rightarrow> bool" where
  "in_progress cid p st \<longleftrightarrow>
     p < length (promises st) \<and> list_ex (\<lambda>t. settles cid p (snd (snd t))) (timers st)"

text \<open>With the canvas \<open>cid\<close> in the document and a constructor that returns, a pending
  creation for \<open>cid\<close> ends with a chart registered under \<open>cid\<close> and one more construction
  than the \<open>K\<close> there were.\<close>

definition progressing :: "nat \<Rightarrow> ident \<Rightarrow> state \<Rightarrow> bool" where
  "progressing K cid st \<longleftrightarrow>
     K \<le> constructions st cid \<and>
     (0 < pending_creations st cid \<or> (map_of (chartInstances st) cid \<noteq> None \<and> K < constructions st cid))"

subsection \<open>Consistency of the registry\<close>

text \<open>What the manager keeps true between any two of its steps: every chart that has
  been constructed and not destroyed is the one registered for its canvas; at most one
  creation is scheduled for a canvas, and then the canvas is flagged as in flight; a
  construction is scheduled only for a canvas without a registered chart.\<close>

definition consistent :: "state \<Rightarrow> bool" where
  "consistent st \<longleftrightarrow>
     (\<forall>h < length (heap st). \<not> destroyed (heap st ! h) \<longrightarrow>
        map_of (chartInstances st) (canvas_id (heap st ! h)) = Some h)
     \<and> (\<forall>cid. pending_creations st cid \<le> 1)
     \<and> (\<forall>cid. 0 < pending_creations st cid \<longrightarrow> map_of (initializingCharts st) cid = Some True)
     \<and> (\<forall>t \<in> set (timers st). \<forall>cid cfg p.
          snd (snd t) = CreateChart cid cfg p \<longrightarrow> map_of (chartInstances st) cid = None)"

section \<open>Facts about the event loop\<close>

lemma run_until_invariant:
  assumes "\<And>s. P s \<Longrightarrow> timers s \<noteq> [] \<Longrightarrow> P (fire e s)"
    and "\<And>s. P s \<Longrightarrow> P (idle limit s)"
    and "P st"
  shows "P (run_until e limit st)"
  using assms
proof (induction e limit st rule: run_until.induct)
  case (1 e limit st)
  show ?case
  proof (cases "due_within limit st")
    case True
    then have "timers st \<noteq> []" by (auto simp: due_within_def)
    with "1.prems" have "P (fire e st)" by blast
    with True "1.IH" "1.prems"(1,2) have "P (run_until e limit (fire e st))" by blast
    with True show ?thesis by (simp add: run_until_fire)
  next
    case False
    from "1.prems"(2,3) have "P (idle limit st)" by blast
    with False show ?thesis by (simp add: run_until_idle)
  qed
qed

lemma timers_run_until_None: "timers (run_until e None st) = []"
proof (induction e "None :: nat option" st rule: run_until.induct)
  case (1 e st)
  show ?case
  proof (cases "due_within None st")
    case True
    with "1.hyps" show ?thesis by (simp add: run_until_fire)
  next
    case False
    then have "timers st = []" by (auto simp: due_within_def split: list.splits)
    with False show ?thesis by (simp add: run_until_idle idle_def)
  qed
qed

lemma set_enqueue [simp]: "set (enqueue t ts) = insert t (set ts)"
  by (induction ts) auto

lemma filter_enqueue_length:
  "length (filter P (enqueue t ts)) = (if P t then 1 else 0) + length (filter P ts)"
  by (induction ts) auto

subsection \<open>What a callback leaves alone\<close>

lemma resolved_stays:
  "p < length ps \<Longrightarrow> ps ! p \<Longrightarrow> ps[q := True] ! p"
  by (cases "q = p") auto

lemma tryCreateChart_cases:
  obtains
    (retry) d where "tryCreateChart e cid cfg p n st =
        st\<lparr> timers := enqueue (next_timer st, clock st + d, TryCreateChart cid cfg p (n + 1)) (timers st),
            next_timer := Suc (next_timer st) \<rparr>"
      and "getElementById e st cid \<noteq> Context2d" and "n < 20"
  | (giveup) w where "tryCreateChart e cid cfg p n st =
        st\<lparr> trace := trace st @ [ConsoleWarn w cid],
            initializingCharts := AList.delete cid (initializingCharts st),
            promises := (promises st)[p := True] \<rparr>"
      and "getElementById e st cid \<noteq> Context2d" and "10 \<le> n"
  | (fresh) "tryCreateChart e cid cfg p n st =
        st\<lparr> timers := enqueue (next_timer st, clock st, CreateChart cid cfg p) (timers st),
            next_timer := Suc (next_timer st) \<rparr>"
      and "getElementById e st cid = Context2d" and "map_of (chartInstances st) cid = None"
  | (replace) h where "tryCreateChart e cid cfg p n st =
        st\<lparr> heap := mark_destroyed h (heap st),
            trace := trace st @ [ChartDestroy h],
            chartInstances := AList.delete cid (chartInstances st),
            timers := enqueue (next_timer st, clock st, CreateChart cid cfg p) (timers st),
            next_timer := Suc (next_timer st) \<rparr>"
      and "getElementById e st cid = Context2d" and "map_of (chartInstances st) cid = Some h"
proof (cases "getElementById e st cid")
  case NoElement
  show ?thesis
  proof (cases "n < 10")
    case True
    with NoElement show ?thesis
      by (intro retry [of 50]) (simp_all add: tryCreateChart_def setTimeout_def)
  next
    case False
    with NoElement show ?thesis
      by (intro giveup [of "''Canvas not found after retries''"])
         (simp_all add: tryCreateChart_def resolve_def emit_def)
  qed
next
  case NoContext
  show ?thesis
  proof (cases "n < 20")
    case True
    with NoContext show ?thesis
      by (intro retry [of 100]) (simp_all add: tryCreateChart_def setTimeout_def)
  next
    case False
    with NoContext show ?thesis
      by (intro giveup [of "''Cannot acquire context''"])
         (simp_all add: tryCreateChart_def resolve_def emit_def)
  qed
next
  case Context2d
  show ?thesis
  proof (cases "map_of (chartInstances st) cid")
    case None
    with Context2d show ?thesis
      by (intro fresh) (simp_all add: tryCreateChart_def setTimeout_def)
  next
    case (Some h)
    with Context2d show ?thesis
      by (intro replace [of h])
         (simp_all add: tryCreateChart_def setTimeout_def chart_destroy_def emit_def)
  qed
qed

lemma createChart_cases:
  obtains
    (built) "createChart e cid cfg p st =
        st\<lparr> heap := heap st @
               [\<lparr> canvas_id = cid,
                  chart_options = (case cfg_options cfg of None \<Rightarrow> [] | Some os \<Rightarrow> os),
                  chart_data = cfg_data cfg, destroyed = False \<rparr>],
            trace := trace st @ [ChartConstruct (length (heap st)) cid],
            chartInstances := AList.update cid (length (heap st)) (chartInstances st),
            initializingCharts := AList.delete cid (initializingCharts st),
            promises := (promises st)[p := True] \<rparr>"
      and "chart_ctor_ok e st cid cfg"
  | (threw) "createChart e cid cfg p st =
        st\<lparr> trace := trace st @ [ConsoleError cid],
            initializingCharts := AList.delete cid (initializingCharts st),
            promises := (promises st)[p := True] \<rparr>"
      and "\<not> chart_ctor_ok e st cid cfg"
proof (cases "chart_ctor_ok e st cid cfg")
  case True
  then show ?thesis
    by (intro built) (simp_all add: createChart_def chart_new_def emit_def resolve_def Let_def)
next
  case False
  then show ?thesis
    by (intro threw) (simp_all add: createChart_def emit_def resolve_def Let_def)
qed

lemma foldl_chart_update:
  "foldl (\<lambda>s (cid, h). chart_update h m s) s0 xs =
     s0\<lparr> trace := trace s0 @ map (\<lambda>x. ChartUpdate (snd x) m) xs \<rparr>"
  by (induction xs arbitrary: s0) (auto simp: chart_update_def emit_def)

lemma resizeCharts_eq:
  "resizeCharts st =
     st\<lparr> trace := trace st @ ResizeChartsCalled (clock st)
                      # map (\<lambda>x. ChartUpdate (snd x) (Some ''resize'')) (chartInstances st) \<rparr>"
  by (simp add: resizeCharts_def foldl_chart_update emit_def)

lemma debounceFire_eq:
  "debounceFire c st =
     st\<lparr> trace := trace st @ ResizeChartsCalled (clock st)
                      # map (\<lambda>x. ChartUpdate (snd x) (Some ''resize'')) (chartInstances st),
         cells := (cells st)[c := None] \<rparr>"
  by (simp add: debounceFire_def resizeCharts_eq Let_def)

subsection \<open>A creation runs to its end\<close>

lemma settled_run_task:
  assumes "settled cid p st"
  shows "settled cid p (run_task e cb st)"
proof (cases cb)
  case (TryCreateChart c cfg q n)
  show ?thesis
    using assms unfolding TryCreateChart run_task.simps
    by (cases rule: tryCreateChart_cases [of e c cfg q n st])
       (auto simp: settled_def resolved_stays delete_conv')
next
  case (CreateChart c cfg q)
  show ?thesis
    using assms unfolding CreateChart run_task.simps
    by (cases rule: createChart_cases [of e c cfg q st])
       (auto simp: settled_def resolved_stays delete_conv')
next
  case (DebounceFire c)
  with assms show ?thesis by (simp add: settled_def debounceFire_eq)
qed

lemma in_progress_run_task:
  assumes "in_progress cid p st"
  shows "in_progress cid p (run_task e cb st)"
proof (cases cb)
  case (TryCreateChart c cfg q n)
  show ?thesis
    using assms unfolding TryCreateChart run_task.simps
    by (cases rule: tryCreateChart_cases [of e c cfg q n st])
       (auto simp: in_progress_def list_ex_iff)
next
  case (CreateChart c cfg q)
  show ?thesis
    using assms unfolding CreateChart run_task.simps
    by (cases rule: createChart_cases [of e c cfg q st])
       (auto simp: in_progress_def list_ex_iff)
next
  case (DebounceFire c)
  with assms show ?thesis by (simp add: in_progress_def debounceFire_eq)
qed

lemma settles_run_task:
  assumes "settles cid p cb" and "p < length (promises st)"
  shows "settled cid p (run_task e cb st) \<or> in_progress cid p (run_task e cb st)"
proof (cases cb)
  case (TryCreateChart c cfg q n)
  with assms(1) have [simp]: "c = cid" "q = p" by simp_all
  show ?thesis
    using assms(2) unfolding TryCreateChart run_task.simps
    by (cases rule: tryCreateChart_cases [of e c cfg q n st])
       (auto simp: settled_def in_progress_def list_ex_iff delete_conv')
next
  case (CreateChart c cfg q)
  with assms(1) have [simp]: "c = cid" "q = p" by simp_all
  show ?thesis
    using assms(2) unfolding CreateChart run_task.simps
    by (cases rule: createChart_cases [of e c cfg q st])
       (auto simp: settled_def delete_conv')
next
  case (DebounceFire c)
  with assms(1) show ?thesis by simp
qed

lemma fire_settling:
  assumes "settled cid p st \<or> in_progress cid p st" and "timers st \<noteq> []"
  shows "settled cid p (fire e st) \<or> in_progress cid p (fire e st)"
proof -
  from assms(2) obtain tid due cb rest where ts: "timers st = (tid, due, cb) # rest"
    by (cases "timers st") auto
  define s0 where "s0 = st\<lparr> timers := rest, clock := max (clock st) due \<rparr>"
  have f: "fire e st = run_task e cb s0"
    by (simp add: fire_def ts s0_def)
  from assms(1) consider (over) "settled cid p s0"
    | (mine) "settles cid p cb" "p < length (promises s0)"
    | (wait) "in_progress cid p s0"
    by (auto simp: settled_def in_progress_def s0_def ts)
  then show ?thesis
  proof cases
    case over
    then show ?thesis unfolding f by (simp add: settled_run_task)
  next
    case mine
    then show ?thesis unfolding f by (rule settles_run_task)
  next
    case wait
    then show ?thesis unfolding f by (simp add: in_progress_run_task)
  qed
qed

lemma run_until_settling:
  assumes "settled cid p st \<or> in_progress cid p st"
  shows "settled cid p (run_until e limit st) \<or> in_progress cid p (run_until e limit st)"
proof (rule run_until_invariant [where P = "\<lambda>s. settled cid p s \<or> in_progress cid p s"])
  show "settled cid p (fire e s) \<or> in_progress cid p (fire e s)"
    if "settled cid p s \<or> in_progress cid p s" and "timers s \<noteq> []" for s
    using that by (rule fire_settling)
  show "settled cid p (idle limit s) \<or> in_progress cid p (idle limit s)"
    if "settled cid p s \<or> in_progress cid p s" for s
    using that by (auto simp: settled_def in_progress_def idle_def split: option.splits)
  show "settled cid p st \<or> in_progress cid p st" by (rule assms)
qed

lemma run_to_end_settled:
  assumes "settled cid p st \<or> in_progress cid p st"
  shows "settled cid p (run_until e None st)"
proof -
  have "\<not> in_progress cid p (run_until e None st)"
    by (simp add: in_progress_def timers_run_until_None)
  with run_until_settling [OF assms, of e None] show ?thesis by blast
qed

lemma spawnChart_in_progress:
  assumes "map_of (initializingCharts st) cid \<noteq> Some True"
  shows "fst (spawnChart e cid cfg st) = length (promises st)"
    and "in_progress cid (length (promises st)) (snd (spawnChart e cid cfg st))"
proof -
  define s1 where "s1 = st\<lparr> initializingCharts := AList.update cid True (initializingCharts st),
                            promises := promises st @ [False] \<rparr>"
  have sp: "spawnChart e cid cfg st =
              (length (promises st), tryCreateChart e cid cfg (length (promises st)) 0 s1)"
    using assms by (simp add: spawnChart_def new_promise_def s1_def)
  show "fst (spawnChart e cid cfg st) = length (promises st)"
    by (simp add: sp)
  show "in_progress cid (length (promises st)) (snd (spawnChart e cid cfg st))"
    unfolding sp snd_conv
    by (cases rule: tryCreateChart_cases [of e cid cfg "length (promises st)" 0 s1])
       (auto simp: in_progress_def list_ex_iff s1_def)
qed

subsection \<open>Counting constructions\<close>

lemmas count_defs = constructions_def pending_creations_def filter_enqueue_length

lemma constructs_on_map_update [simp]:
  "filter (constructs_on cid) (map (\<lambda>x. ChartUpdate (f x) m) xs) = []"
  by (induction xs) auto

text \<open>A callback constructs at most one chart, and only in exchange for a pending
  creation.\<close>

lemma run_task_potential:
  "constructions (run_task e cb st) cid + pending_creations (run_task e cb st) cid
     \<le> constructions st cid + pending_creations st cid + (if creates_on cid cb then 1 else 0)"
proof (cases cb)
  case (TryCreateChart c cfg q n)
  show ?thesis
    unfolding TryCreateChart run_task.simps
    by (cases rule: tryCreateChart_cases [of e c cfg q n st]) (auto simp: count_defs)
next
  case (CreateChart c cfg q)
  show ?thesis
    unfolding CreateChart run_task.simps
    by (cases rule: createChart_cases [of e c cfg q st]) (auto simp: count_defs)
next
  case (DebounceFire c)
  then show ?thesis by (simp add: debounceFire_eq count_defs)
qed

lemma fire_unfold:
  assumes "timers st = (tid, due, cb) # rest"
  shows "fire e st = run_task e cb (st\<lparr> timers := rest, clock := max (clock st) due \<rparr>)"
  using assms by (simp add: fire_def)

lemma pending_creations_pop:
  assumes "timers st = (tid, due, cb) # rest"
  shows "pending_creations st cid =
           (if creates_on cid cb then 1 else 0)
             + pending_creations (st\<lparr> timers := rest, clock := max (clock st) due \<rparr>) cid"
  using assms by (simp add: pending_creations_def)

lemma fire_potential:
  assumes "timers st \<noteq> []"
  shows "constructions (fire e st) cid + pending_creations (fire e st) cid
           \<le> constructions st cid + pending_creations st cid"
proof -
  from assms obtain tid due cb rest where ts: "timers st = (tid, due, cb) # rest"
    by (cases "timers st") auto
  define s0 where "s0 = st\<lparr> timers := rest, clock := max (clock st) due \<rparr>"
  have c0: "constructions s0 cid = constructions st cid"
    by (simp add: s0_def constructions_def)
  have p0: "pending_creations st cid = (if creates_on cid cb then 1 else 0) + pending_creations s0 cid"
    unfolding s0_def by (rule pending_creations_pop [OF ts])
  have f: "fire e st = run_task e cb s0"
    unfolding s0_def by (rule fire_unfold [OF ts])
  show ?thesis
    using run_task_potential [of e cb s0 cid] unfolding f c0 p0 by simp
qed

lemma run_until_potential:
  "constructions (run_until e limit st) cid + pending_creations (run_until e limit st) cid
     \<le> constructions st cid + pending_creations st cid"
proof (rule run_until_invariant
    [where P = "\<lambda>s. constructions s cid + pending_creations s cid
                       \<le> constructions st cid + pending_creations st cid"])
  show "constructions (fire e s) cid + pending_creations (fire e s) cid
          \<le> constructions st cid + pending_creations st cid"
    if "constructions s cid + pending_creations s cid \<le> constructions st cid + pending_creations st cid"
      and "timers s \<noteq> []" for s
    using that(1) fire_potential [OF that(2), of e cid] by linarith
  show "constructions (idle limit s) cid + pending_creations (idle limit s) cid
          \<le> constructions st cid + pending_creations st cid"
    if "constructions s cid + pending_creations s cid \<le> constructions st cid + pending_creations st cid"
    for s
    using that by (simp add: idle_def count_defs split: option.splits)
  show "constructions st cid + pending_creations st cid \<le> constructions st cid + pending_creations st cid"
    by simp
qed

lemma constructions_run_to_end:
  "constructions (run_until e None st) cid \<le> constructions st cid + pending_creations st cid"
proof -
  have "pending_creations (run_until e None st) cid = 0"
    by (simp add: pending_creations_def timers_run_until_None)
  with run_until_potential [of e None st cid] show ?thesis by simp
qed

subsection \<open>A creation that finds its canvas\<close>

lemma run_task_progressing:
  assumes ready: "\<forall>s. getElementById e s cid = Context2d \<and> (\<forall>cfg. chart_ctor_ok e s cid cfg)"
    and "K \<le> constructions st cid"
    and "creates_on cid cb \<or> 0 < pending_creations st cid
           \<or> (map_of (chartInstances st) cid \<noteq> None \<and> K < constructions st cid)"
  shows "progressing K cid (run_task e cb st)"
proof (cases cb)
  case (TryCreateChart c cfg q n)
  show ?thesis
    using assms unfolding TryCreateChart run_task.simps
    by (cases rule: tryCreateChart_cases [of e c cfg q n st])
       (auto simp: progressing_def count_defs delete_conv')
next
  case (CreateChart c cfg q)
  show ?thesis
    using assms unfolding CreateChart run_task.simps
    by (cases rule: createChart_cases [of e c cfg q st])
       (auto simp: progressing_def count_defs delete_conv' update_conv')
next
  case (DebounceFire c)
  with assms show ?thesis by (auto simp: progressing_def debounceFire_eq count_defs)
qed

lemma fire_progressing:
  assumes ready: "\<forall>s. getElementById e s cid = Context2d \<and> (\<forall>cfg. chart_ctor_ok e s cid cfg)"
    and "progressing K cid st" and "timers st \<noteq> []"
  shows "progressing K cid (fire e st)"
proof -
  from assms(3) obtain tid due cb rest where ts: "timers st = (tid, due, cb) # rest"
    by (cases "timers st") auto
  define s0 where "s0 = st\<lparr> timers := rest, clock := max (clock st) due \<rparr>"
  have c0: "constructions s0 cid = constructions st cid"
    by (simp add: s0_def constructions_def)
  have p0: "pending_creations st cid = (if creates_on cid cb then 1 else 0) + pending_creations s0 cid"
    unfolding s0_def by (rule pending_creations_pop [OF ts])
  have r0: "chartInstances s0 = chartInstances st"
    by (simp add: s0_def)
  have f: "fire e st = run_task e cb s0"
    unfolding s0_def by (rule fire_unfold [OF ts])
  have "K \<le> constructions s0 cid"
    using assms(2) by (simp add: progressing_def c0)
  moreover have "creates_on cid cb \<or> 0 < pending_creations s0 cid
           \<or> (map_of (chartInstances s0) cid \<noteq> None \<and> K < constructions s0 cid)"
    using assms(2) by (auto simp: progressing_def c0 p0 r0 split: if_splits)
  ultimately show ?thesis
    unfolding f by (rule run_task_progressing [OF ready])
qed

lemma run_to_end_progressing:
  assumes ready: "\<forall>s. getElementById e s cid = Context2d \<and> (\<forall>cfg. chart_ctor_ok e s cid cfg)"
    and "progressing K cid st"
  shows "map_of (chartInstances (run_until e None st)) cid \<noteq> None
         \<and> K < constructions (run_until e None st) cid"
proof -
  have "progressing K cid (run_until e None st)"
  proof (rule run_until_invariant [where P = "progressing K cid"])
    show "progressing K cid (fire e s)" if "progressing K cid s" and "timers s \<noteq> []" for s
      using ready that by (rule fire_progressing)
    show "progressing K cid (idle None s)" if "progressing K cid s" for s
      using that by (simp add: idle_def)
    show "progressing K cid st" by (rule assms(2))
  qed
  moreover have "pending_creations (run_until e None st) cid = 0"
    by (simp add: pending_creations_def timers_run_until_None)
  ultimately show ?thesis by (simp add: progressing_def)
qed

subsection \<open>What \<^verbatim>\<open>dispose\<close> and \<^verbatim>\<open>spawnChart\<close> change\<close>

lemma dispose_fold:
  "foldl (\<lambda>s (cid, h). (chart_destroy h s)\<lparr> chartInstances := AList.delete cid (chartInstances s) \<rparr>) s0 xs =
     s0\<lparr> heap := foldl (\<lambda>hp x. mark_destroyed (snd x) hp) (heap s0) xs,
         trace := trace s0 @ map (\<lambda>x. ChartDestroy (snd x)) xs,
         chartInstances := foldl (\<lambda>r x. AList.delete (fst x) r) (chartInstances s0) xs \<rparr>"
proof (induction xs arbitrary: s0)
  case Nil
  show ?case by simp
next
  case (Cons x xs)
  obtain c h where x: "x = (c, h)" by (cases x)
  show ?case
    by (simp only: x foldl_Cons prod.case Cons.IH) (simp add: chart_destroy_def emit_def)
qed

lemma keys_delete: "fst ` set (AList.delete k r) = fst ` set r - {k}"
  by (auto simp: AList.delete_eq)

lemma delete_all_keys:
  "fst ` set r \<subseteq> fst ` set xs \<Longrightarrow> foldl (\<lambda>r x. AList.delete (fst x) r) r xs = []"
proof (induction xs arbitrary: r)
  case Nil
  then show ?case by simp
next
  case (Cons x xs)
  have "fst ` set (AList.delete (fst x) r) \<subseteq> fst ` set xs"
    using Cons.prems by (auto simp: keys_delete)
  then show ?case by (simp add: Cons.IH)
qed

lemma dispose_eq:
  "dispose st =
     (remove_resizeHandler st)
       \<lparr> heap := foldl (\<lambda>hp x. mark_destroyed (snd x) hp) (heap st) (chartInstances st),
         trace := trace st @ map (\<lambda>x. ChartDestroy (snd x)) (chartInstances st),
         chartInstances := [] \<rparr>"
proof -
  have fr: "heap (remove_resizeHandler st) = heap st" "trace (remove_resizeHandler st) = trace st"
    "chartInstances (remove_resizeHandler st) = chartInstances st"
    by (simp_all add: remove_resizeHandler_def removeEventListener_def split: option.splits)
  show ?thesis
    by (simp add: dispose_def dispose_fold fr delete_all_keys)
qed

lemma dispose_frame:
  "timers (dispose st) = timers st"
  "initializingCharts (dispose st) = initializingCharts st"
  "promises (dispose st) = promises st"
  "chartInstances (dispose st) = []"
  "constructions (dispose st) cid = constructions st cid"
  "pending_creations (dispose st) cid = pending_creations st cid"
  by (simp_all add: dispose_eq remove_resizeHandler_def removeEventListener_def count_defs
        split: option.splits)

lemma spawnChart_in_flight:
  assumes "map_of (initializingCharts st) cid = Some True"
  shows "spawnChart e cid cfg st = (length (promises st), st\<lparr> promises := promises st @ [True] \<rparr>)"
  using assms by (simp add: spawnChart_def new_promise_def)

lemma spawnChart_fresh:
  assumes "map_of (initializingCharts st) cid \<noteq> Some True"
  shows "spawnChart e cid cfg st =
           (length (promises st),
            tryCreateChart e cid cfg (length (promises st)) 0
              (st\<lparr> initializingCharts := AList.update cid True (initializingCharts st),
                  promises := promises st @ [False] \<rparr>))"
  using assms by (simp add: spawnChart_def new_promise_def)

lemma spawnChart_sets_flag:
  "map_of (initializingCharts (snd (spawnChart e cid cfg st))) cid = Some True"
proof (cases "map_of (initializingCharts st) cid = Some True")
  case True
  then show ?thesis by (simp add: spawnChart_in_flight)
next
  case False
  define s1 where "s1 = st\<lparr> initializingCharts := AList.update cid True (initializingCharts st),
                            promises := promises st @ [False] \<rparr>"
  show ?thesis
    unfolding spawnChart_fresh [OF False] snd_conv s1_def [symmetric]
    by (cases rule: tryCreateChart_cases [of e cid cfg "length (promises st)" 0 s1])
       (auto simp: s1_def update_conv')
qed

lemma spawnChart_counts:
  "constructions (snd (spawnChart e cid cfg st)) c = constructions st c"
  "pending_creations (snd (spawnChart e cid cfg st)) cid =
     pending_creations st cid + (if map_of (initializingCharts st) cid = Some True then 0 else 1)"
  "chartInstances (snd (spawnChart e cid cfg st)) = chartInstances st
     \<or> chartInstances (snd (spawnChart e cid cfg st)) = AList.delete cid (chartInstances st)"
proof -
  define s1 where "s1 = st\<lparr> initializingCharts := AList.update cid True (initializingCharts st),
                            promises := promises st @ [False] \<rparr>"
  have fresh: "snd (spawnChart e cid cfg st) = tryCreateChart e cid cfg (length (promises st)) 0 s1"
    if "map_of (initializingCharts st) cid \<noteq> Some True"
    by (simp add: spawnChart_fresh [OF that] s1_def)
  show "constructions (snd (spawnChart e cid cfg st)) c = constructions st c"
  proof (cases "map_of (initializingCharts st) cid = Some True")
    case True
    then show ?thesis by (simp add: spawnChart_in_flight count_defs)
  next
    case False
    show ?thesis
      unfolding fresh [OF False]
      by (cases rule: tryCreateChart_cases [of e cid cfg "length (promises st)" 0 s1])
         (auto simp: s1_def count_defs)
  qed
  show "pending_creations (snd (spawnChart e cid cfg st)) cid =
     pending_creations st cid + (if map_of (initializingCharts st) cid = Some True then 0 else 1)"
  proof (cases "map_of (initializingCharts st) cid = Some True")
    case True
    then show ?thesis by (simp add: spawnChart_in_flight count_defs)
  next
    case False
    show ?thesis
      unfolding fresh [OF False]
      using False
      by (cases rule: tryCreateChart_cases [of e cid cfg "length (promises st)" 0 s1])
         (auto simp: s1_def count_defs)
  qed
  show "chartInstances (snd (spawnChart e cid cfg st)) = chartInstances st
     \<or> chartInstances (snd (spawnChart e cid cfg st)) = AList.delete cid (chartInstances st)"
  proof (cases "map_of (initializingCharts st) cid = Some True")
    case True
    then show ?thesis by (simp add: spawnChart_in_flight)
  next
    case False
    show ?thesis
      unfolding fresh [OF False]
      by (cases rule: tryCreateChart_cases [of e cid cfg "length (promises st)" 0 s1])
         (auto simp: s1_def)
  qed
qed

subsection \<open>The registry stays consistent\<close>

lemma length_mark_destroyed [simp]: "length (mark_destroyed h hp) = length hp"
  by (simp add: mark_destroyed_def)

lemma canvas_id_mark_destroyed [simp]: "canvas_id (mark_destroyed h hp ! i) = canvas_id (hp ! i)"
  by (cases "i = h") (auto simp: mark_destroyed_def)

lemma destroyed_mark_destroyed:
  "i < length hp \<Longrightarrow> destroyed (mark_destroyed h hp ! i) \<longleftrightarrow> i = h \<or> destroyed (hp ! i)"
  by (cases "i = h") (auto simp: mark_destroyed_def)

lemma tryCreateChart_consistent:
  assumes "consistent st" and "pending_creations st cid = 0"
    and "map_of (initializingCharts st) cid = Some True"
  shows "consistent (tryCreateChart e cid cfg p n st)"
proof (cases rule: tryCreateChart_cases [of e cid cfg p n st])
  case (retry d)
  with assms show ?thesis
    by (auto simp: consistent_def count_defs)
next
  case (giveup w)
  with assms show ?thesis
    by (auto simp: consistent_def count_defs delete_conv')
next
  case fresh
  with assms show ?thesis
    by (auto simp: consistent_def count_defs)
next
  case (replace h)
  with assms show ?thesis
    by (auto simp: consistent_def count_defs delete_conv' destroyed_mark_destroyed)
qed

lemma createChart_consistent:
  assumes "consistent st" and "pending_creations st cid = 0"
    and "map_of (chartInstances st) cid = None"
  shows "consistent (createChart e cid cfg p st)"
proof (cases rule: createChart_cases [of e cid cfg p st])
  case built
  have live: "map_of (chartInstances st) (canvas_id (heap st ! h)) = Some h"
    if "h < length (heap st)" and "\<not> destroyed (heap st ! h)" for h
    using assms(1) that by (simp add: consistent_def)
  have other: "canvas_id (heap st ! h) \<noteq> cid"
    if "h < length (heap st)" and "\<not> destroyed (heap st ! h)" for h
    using live [OF that] assms(3) by auto
  have "\<forall>h < length (heap st) + 1.
          \<not> destroyed ((heap st @ [\<lparr> canvas_id = cid,
                  chart_options = (case cfg_options cfg of None \<Rightarrow> [] | Some os \<Rightarrow> os),
                  chart_data = cfg_data cfg, destroyed = False \<rparr>]) ! h) \<longrightarrow>
          map_of (AList.update cid (length (heap st)) (chartInstances st))
            (canvas_id ((heap st @ [\<lparr> canvas_id = cid,
                  chart_options = (case cfg_options cfg of None \<Rightarrow> [] | Some os \<Rightarrow> os),
                  chart_data = cfg_data cfg, destroyed = False \<rparr>]) ! h)) = Some h"
    using live other by (auto simp: nth_append update_conv')
  moreover have "\<forall>t \<in> set (timers st). \<forall>c cfg' q.
          snd (snd t) = CreateChart c cfg' q \<longrightarrow>
          map_of (AList.update cid (length (heap st)) (chartInstances st)) c = None"
  proof (intro ballI allI impI)
    fix t c cfg' q
    assume t: "t \<in> set (timers st)" and cb: "snd (snd t) = CreateChart c cfg' q"
    then have "map_of (chartInstances st) c = None"
      using assms(1) by (auto simp: consistent_def)
    moreover have "c \<noteq> cid"
    proof
      assume "c = cid"
      with t cb have "creates_on cid (snd (snd t))"
        by simp
      with t have "filter (\<lambda>t. creates_on cid (snd (snd t))) (timers st) \<noteq> []"
        by (auto simp: filter_empty_conv)
      with assms(2) show False by (simp add: pending_creations_def)
    qed
    ultimately show "map_of (AList.update cid (length (heap st)) (chartInstances st)) c = None"
      by (simp add: update_conv')
  qed
  ultimately show ?thesis
    using assms built(1) by (simp add: consistent_def count_defs delete_conv')
next
  case threw
  with assms show ?thesis
    by (auto simp: consistent_def count_defs delete_conv')
qed

lemma debounceFire_consistent:
  "consistent st \<Longrightarrow> consistent (debounceFire c st)"
  by (simp add: consistent_def debounceFire_eq count_defs)

lemma consistent_pop:
  assumes "consistent st" and ts: "timers st = (tid, due, cb) # rest"
  shows "consistent (st\<lparr> timers := rest, clock := max (clock st) due \<rparr>)"
    and "creates_on cid cb \<Longrightarrow>
           pending_creations (st\<lparr> timers := rest, clock := max (clock st) due \<rparr>) cid = 0
           \<and> map_of (initializingCharts st) cid = Some True"
    and "cb = CreateChart cid cfg p \<Longrightarrow> map_of (chartInstances st) cid = None"
proof -
  have le: "pending_creations (st\<lparr> timers := rest, clock := max (clock st) due \<rparr>) c
              \<le> pending_creations st c" for c
    by (simp add: pending_creations_pop [OF ts])
  have one: "pending_creations st c \<le> 1" for c
    using assms(1) by (simp add: consistent_def)
  have flag: "0 < pending_creations st c \<Longrightarrow> map_of (initializingCharts st) c = Some True" for c
    using assms(1) by (simp add: consistent_def)
  show "consistent (st\<lparr> timers := rest, clock := max (clock st) due \<rparr>)"
    unfolding consistent_def
  proof (intro conjI)
    show "\<forall>h<length (heap (st\<lparr>timers := rest, clock := max (clock st) due\<rparr>)).
       \<not> destroyed (heap (st\<lparr>timers := rest, clock := max (clock st) due\<rparr>) ! h) \<longrightarrow>
       map_of (chartInstances (st\<lparr>timers := rest, clock := max (clock st) due\<rparr>))
        (canvas_id (heap (st\<lparr>timers := rest, clock := max (clock st) due\<rparr>) ! h)) = Some h"
      using assms(1) by (simp add: consistent_def)
    show "\<forall>c. pending_creations (st\<lparr>timers := rest, clock := max (clock st) due\<rparr>) c \<le> 1"
      using le one by (meson order_trans)
    show "\<forall>c. 0 < pending_creations (st\<lparr>timers := rest, clock := max (clock st) due\<rparr>) c \<longrightarrow>
       map_of (initializingCharts (st\<lparr>timers := rest, clock := max (clock st) due\<rparr>)) c = Some True"
    proof (intro allI impI)
      fix c
      assume "0 < pending_creations (st\<lparr>timers := rest, clock := max (clock st) due\<rparr>) c"
      with le [of c] have "0 < pending_creations st c" by simp
      then show "map_of (initializingCharts (st\<lparr>timers := rest, clock := max (clock st) due\<rparr>)) c = Some True"
        by (simp add: flag)
    qed
    show "\<forall>t\<in>set (timers (st\<lparr>timers := rest, clock := max (clock st) due\<rparr>)). \<forall>c cfg p.
       snd (snd t) = CreateChart c cfg p \<longrightarrow>
       map_of (chartInstances (st\<lparr>timers := rest, clock := max (clock st) due\<rparr>)) c = None"
      using assms(1) ts by (auto simp: consistent_def)
  qed
  show "pending_creations (st\<lparr> timers := rest, clock := max (clock st) due \<rparr>) cid = 0
           \<and> map_of (initializingCharts st) cid = Some True" if "creates_on cid cb"
    using that one [of cid] flag [of cid] by (simp add: pending_creations_pop [OF ts, of cid])
  show "map_of (chartInstances st) cid = None" if "cb = CreateChart cid cfg p"
    using assms(1) ts that by (auto simp: consistent_def)
qed

lemma fire_consistent:
  assumes "consistent st" and "timers st \<noteq> []"
  shows "consistent (fire e st)"
proof -
  from assms(2) obtain tid due cb rest where ts: "timers st = (tid, due, cb) # rest"
    by (cases "timers st") auto
  define s0 where "s0 = st\<lparr> timers := rest, clock := max (clock st) due \<rparr>"
  note pop = consistent_pop [OF assms(1) ts, folded s0_def]
  have f: "fire e st = run_task e cb s0"
    unfolding s0_def by (rule fire_unfold [OF ts])
  have fl: "initializingCharts s0 = initializingCharts st" and rg: "chartInstances s0 = chartInstances st"
    by (simp_all add: s0_def)
  show ?thesis
  proof (cases cb)
    case (TryCreateChart c cfg q n)
    then show ?thesis
      using pop(1) pop(2) [of c] by (simp add: f fl tryCreateChart_consistent)
  next
    case (CreateChart c cfg q)
    then show ?thesis
      using pop(1) pop(2) [of c] pop(3) [of c cfg q] by (simp add: f rg createChart_consistent)
  next
    case (DebounceFire c)
    then show ?thesis
      using pop(1) by (simp add: f debounceFire_consistent)
  qed
qed

lemma run_until_consistent:
  assumes "consistent st"
  shows "consistent (run_until e limit st)"
proof (rule run_until_invariant [where P = consistent])
  show "consistent (fire e s)" if "consistent s" and "timers s \<noteq> []" for s
    using that by (rule fire_consistent)
  show "consistent (idle limit s)" if "consistent s" for s
    using that by (simp add: consistent_def idle_def count_defs split: option.splits)
  show "consistent st" by (rule assms)
qed

lemma spawnChart_consistent:
  assumes "consistent st"
  shows "consistent (snd (spawnChart e cid cfg st))"
proof (cases "map_of (initializingCharts st) cid = Some True")
  case True
  with assms show ?thesis
    by (simp add: spawnChart_in_flight consistent_def count_defs)
next
  case False
  define s1 where "s1 = st\<lparr> initializingCharts := AList.update cid True (initializingCharts st),
                            promises := promises st @ [False] \<rparr>"
  have none: "pending_creations st cid = 0"
    using assms False by (auto simp: consistent_def)
  have "consistent s1"
    using assms by (auto simp: consistent_def s1_def count_defs update_conv')
  moreover have "pending_creations s1 cid = 0"
    using none by (simp add: s1_def pending_creations_def)
  moreover have "map_of (initializingCharts s1) cid = Some True"
    by (simp add: s1_def update_conv')
  ultimately have "consistent (tryCreateChart e cid cfg (length (promises st)) 0 s1)"
    by (rule tryCreateChart_consistent)
  then show ?thesis
    by (simp add: spawnChart_fresh [OF False] s1_def)
qed

lemma spawnCharts_consistent:
  "consistent st \<Longrightarrow> consistent (snd (spawnCharts e configs st))"
proof (induction configs arbitrary: st)
  case Nil
  then show ?case by simp
next
  case (Cons x configs)
  obtain cid cfg where x: "x = (cid, cfg)" by (cases x)
  have "consistent (snd (spawnCharts e configs (snd (spawnChart e cid cfg st))))"
    by (intro Cons.IH spawnChart_consistent Cons.prems)
  then show ?case
    by (simp add: x case_prod_beta)
qed

lemma updateChartConfig_consistent:
  assumes "consistent st"
  shows "consistent (snd (updateChartConfig cid cfg st))"
proof (cases "map_of (chartInstances st) cid")
  case None
  with assms show ?thesis
    by (simp add: updateChartConfig_def new_promise_def consistent_def count_defs)
next
  case (Some h)
  show ?thesis
  proof (cases "h < length (heap st)")
    case True
    have same: "canvas_id (((heap st)[h := (heap st ! h)\<lparr> chart_options := os, chart_data := d \<rparr>]) ! i)
                  = canvas_id (heap st ! i)
              \<and> destroyed (((heap st)[h := (heap st ! h)\<lparr> chart_options := os, chart_data := d \<rparr>]) ! i)
                  = destroyed (heap st ! i)" for os d i
      using True by (cases "i = h") auto
    show ?thesis
      using assms Some True
      by (simp add: updateChartConfig_def new_promise_def chart_update_def emit_def
            consistent_def count_defs same)
  next
    case False
    with assms Some show ?thesis
      by (simp add: updateChartConfig_def new_promise_def chart_update_def emit_def
            consistent_def count_defs)
  qed
qed

lemma updateAllCharts_consistent:
  "consistent st \<Longrightarrow> consistent (snd (updateAllCharts configs st))"
proof (induction configs arbitrary: st)
  case Nil
  then show ?case by simp
next
  case (Cons x configs)
  obtain cid cfg where x: "x = (cid, cfg)" by (cases x)
  have "consistent (snd (updateAllCharts configs (snd (updateChartConfig cid cfg st))))"
    by (intro Cons.IH updateChartConfig_consistent Cons.prems)
  then show ?case
    by (simp add: x case_prod_beta)
qed

lemma resizeCharts_consistent:
  "consistent st \<Longrightarrow> consistent (resizeCharts st)"
  by (simp add: consistent_def resizeCharts_eq count_defs)

lemma listeners_consistent:
  "consistent st \<Longrightarrow> consistent (st\<lparr> listeners := ls \<rparr>)"
  "consistent st \<Longrightarrow> consistent (st\<lparr> listeners := ls, next_listener := n \<rparr>)"
  "consistent st \<Longrightarrow> consistent (st\<lparr> listeners := ls, next_listener := n, resizeHandler := r \<rparr>)"
  by (simp_all add: consistent_def count_defs)

lemma setupResizeListener_consistent:
  "consistent st \<Longrightarrow> consistent (setupResizeListener delay st)"
  by (simp add: setupResizeListener_def addEventListener_def listeners_consistent)

lemma addEventListener_consistent:
  "consistent st \<Longrightarrow> consistent (snd (addEventListener l st))"
  by (simp add: addEventListener_def listeners_consistent)

lemma resizeHandler_body_eq:
  "resizeHandler_body delay st =
     st\<lparr> timers := enqueue (next_timer st, clock st + delay, DebounceFire (length (cells st))) (timers st),
         next_timer := Suc (next_timer st),
         cells := cells st @ [Some (next_timer st)] \<rparr>"
  by (simp add: resizeHandler_body_def debounce_def debounced_def setTimeout_def Let_def)

lemma run_listener_consistent:
  "consistent st \<Longrightarrow> consistent (run_listener l st)"
proof (cases l)
  case (ResizeHandler delay)
  assume "consistent st"
  then show ?thesis
    by (auto simp: ResizeHandler resizeHandler_body_eq consistent_def count_defs)
next
  case DirectResize
  assume "consistent st"
  then show ?thesis
    by (simp add: DirectResize resizeCharts_consistent)
qed

lemma resize_event_consistent:
  assumes "consistent st"
  shows "consistent (resize_event st)"
proof -
  have "consistent (foldl (\<lambda>s (l, f). run_listener f s) s0 ls)" if "consistent s0" for s0 ls
    using that by (induction ls arbitrary: s0) (auto simp: run_listener_consistent)
  with assms show ?thesis by (simp add: resize_event_def)
qed

lemma foldl_mark_destroyed:
  "length (foldl (\<lambda>hp x. mark_destroyed (snd x) hp) hp xs) = length hp"
  "canvas_id (foldl (\<lambda>hp x. mark_destroyed (snd x) hp) hp xs ! i) = canvas_id (hp ! i)"
  "i < length hp \<Longrightarrow>
     destroyed (foldl (\<lambda>hp x. mark_destroyed (snd x) hp) hp xs ! i)
       \<longleftrightarrow> i \<in> snd ` set xs \<or> destroyed (hp ! i)"
proof -
  show len: "length (foldl (\<lambda>hp x. mark_destroyed (snd x) hp) hp xs) = length hp" for hp
    by (induction xs arbitrary: hp) auto
  show "canvas_id (foldl (\<lambda>hp x. mark_destroyed (snd x) hp) hp xs ! i) = canvas_id (hp ! i)"
    by (induction xs arbitrary: hp) auto
  show "destroyed (foldl (\<lambda>hp x. mark_destroyed (snd x) hp) hp xs ! i)
          \<longleftrightarrow> i \<in> snd ` set xs \<or> destroyed (hp ! i)" if "i < length hp"
    using that by (induction xs arbitrary: hp) (auto simp: destroyed_mark_destroyed)
qed

lemma dispose_consistent:
  assumes "consistent st"
  shows "consistent (dispose st)"
proof -
  have gone: "destroyed (foldl (\<lambda>hp x. mark_destroyed (snd x) hp) (heap st) (chartInstances st) ! h)"
    if "h < length (heap st)" for h
  proof (cases "destroyed (heap st ! h)")
    case True
    with that show ?thesis by (simp add: foldl_mark_destroyed(3))
  next
    case False
    with assms that have "map_of (chartInstances st) (canvas_id (heap st ! h)) = Some h"
      by (simp add: consistent_def)
    then have "(canvas_id (heap st ! h), h) \<in> set (chartInstances st)"
      by (rule map_of_SomeD)
    then have "h \<in> snd ` set (chartInstances st)"
      by force
    with that show ?thesis by (simp add: foldl_mark_destroyed(3))
  qed
  have fr: "timers (remove_resizeHandler st) = timers st"
    "initializingCharts (remove_resizeHandler st) = initializingCharts st"
    by (simp_all add: remove_resizeHandler_def removeEventListener_def split: option.splits)
  show ?thesis
    using assms gone
    by (simp add: consistent_def dispose_eq foldl_mark_destroyed(1) fr pending_creations_def)
qed

lemma disposeChart_consistent:
  assumes "consistent st"
  shows "consistent (disposeChart cid st)"
proof (cases "map_of (chartInstances st) cid")
  case None
  with assms show ?thesis by (simp add: disposeChart_def)
next
  case (Some h)
  with assms show ?thesis
    by (auto simp: disposeChart_def chart_destroy_def emit_def consistent_def count_defs
          delete_conv' destroyed_mark_destroyed)
qed

lemma perform_consistent:
  "consistent st \<Longrightarrow> consistent (perform e a st)"
  by (cases a)
     (simp_all add: spawnCharts_consistent updateChartConfig_consistent updateAllCharts_consistent
        resizeCharts_consistent setupResizeListener_consistent dispose_consistent
        disposeChart_consistent addEventListener_consistent resize_event_consistent
        run_until_consistent)

lemma run_script_consistent:
  "consistent st \<Longrightarrow> consistent (run_script e as st)"
  unfolding run_script_def
  by (induction as arbitrary: st) (simp_all add: perform_consistent)

lemma consistent_new_manager: "consistent new_manager"
  by (simp add: consistent_def new_manager_def pending_creations_def)

lemma consistent_live_handles:
  assumes "consistent st"
  shows "length (live_handles st cid) \<le> 1"
proof -
  have "distinct (live_handles st cid)"
    by (simp add: live_handles_def)
  then have "length (live_handles st cid) = card (set (live_handles st cid))"
    by (simp add: distinct_card)
  also have "set (live_handles st cid) \<subseteq> (case map_of (chartInstances st) cid of None \<Rightarrow> {} | Some h \<Rightarrow> {h})"
    using assms by (auto simp: live_handles_def consistent_def split: option.splits)
  then have "card (set (live_handles st cid)) \<le> 1"
    by (cases "map_of (chartInstances st) cid")
       (auto dest: card_mono [rotated])
  finally show ?thesis .
qed

section \<open>Creating a chart\<close>

text \<open>
  C5. While a creation for an identifier is in flight, \<^verbatim>\<open>spawnChart\<close> for that identifier only
  returns a promise that is already resolved: the registry, the in-flight flags, the timers,
  the charts and the trace stay as they are. A call of \<^verbatim>\<open>spawnChart\<close> always leaves the flag
  set, so a second call right after it is such a no-op. When no creation for the identifier
  was scheduled before, two calls in a row lead to at most one construction on that canvas,
  and to exactly one when the canvas and its context are there and the constructor returns.
\<close>

theorem spawnChart_twice:
  "(map_of (initializingCharts st) cid = Some True \<longrightarrow>
      spawnChart e cid cfg st = (length (promises st), st\<lparr> promises := promises st @ [True] \<rparr>))
   \<and> (let st1 = snd (spawnChart e cid cfg st);
           st2 = snd (spawnChart e cid cfg' st1);
           st' = run_until e None st2
       in st2 = st1\<lparr> promises := promises st1 @ [True] \<rparr>
          \<and> (pending_creations st cid = 0 \<longrightarrow> constructions st' cid \<le> constructions st cid + 1)
          \<and> (pending_creations st cid = 0 \<and> map_of (initializingCharts st) cid \<noteq> Some True
               \<and> (\<forall>s. getElementById e s cid = Context2d \<and> (\<forall>c. chart_ctor_ok e s cid c))
             \<longrightarrow> constructions st' cid = constructions st cid + 1))"
proof -
  define st1 where "st1 = snd (spawnChart e cid cfg st)"
  define st2 where "st2 = snd (spawnChart e cid cfg' st1)"
  define st' where "st' = run_until e None st2"
  have flag: "map_of (initializingCharts st1) cid = Some True"
    unfolding st1_def by (rule spawnChart_sets_flag)
  have second: "st2 = st1\<lparr> promises := promises st1 @ [True] \<rparr>"
    unfolding st2_def by (simp add: spawnChart_in_flight [OF flag])
  have "constructions st2 cid = constructions st1 cid"
    by (simp add: second constructions_def)
  then have c2: "constructions st2 cid = constructions st cid"
    by (simp add: st1_def spawnChart_counts(1))
  have "pending_creations st2 cid = pending_creations st1 cid"
    by (simp add: second pending_creations_def)
  then have p2: "pending_creations st2 cid =
              pending_creations st cid + (if map_of (initializingCharts st) cid = Some True then 0 else 1)"
    by (simp only: st1_def spawnChart_counts(2))
  have upper: "constructions st' cid \<le> constructions st cid + 1" if "pending_creations st cid = 0"
    using constructions_run_to_end [of e st2 cid] that
    by (simp add: st'_def c2 p2 split: if_splits)
  have exact: "constructions st' cid = constructions st cid + 1"
    if none: "pending_creations st cid = 0" and fresh: "map_of (initializingCharts st) cid \<noteq> Some True"
      and ready: "\<forall>s. getElementById e s cid = Context2d \<and> (\<forall>c. chart_ctor_ok e s cid c)"
  proof -
    have "progressing (constructions st cid) cid st2"
      using fresh by (simp add: progressing_def c2 p2)
    from run_to_end_progressing [OF ready this] have "constructions st cid < constructions st' cid"
      by (simp add: st'_def)
    with upper [OF none] show ?thesis by simp
  qed
  show ?thesis
    using spawnChart_in_flight [of st cid e cfg] second upper exact
    unfolding Let_def st1_def [symmetric] st2_def [symmetric] st'_def [symmetric]
    by blast
qed

theorem spawnChart_twice_witness:
  "map_of (initializingCharts in_flight) ''powerGauge'' = Some True
   \<and> spawnChart ready_env ''powerGauge'' options_only in_flight =
       (length (promises in_flight), in_flight\<lparr> promises := promises in_flight @ [True] \<rparr>)
   \<and> pending_creations new_manager ''powerGauge'' = 0
   \<and> map_of (initializingCharts new_manager) ''powerGauge'' \<noteq> Some True
   \<and> (\<forall>s. getElementById ready_env s ''powerGauge'' = Context2d
            \<and> (\<forall>c. chart_ctor_ok ready_env s ''powerGauge'' c))
   \<and> constructions
        (run_until ready_env None
           (snd (spawnChart ready_env ''powerGauge'' options_only
                   (snd (spawnChart ready_env ''powerGauge'' gaugeConfig new_manager)))))
        ''powerGauge'' = constructions new_manager ''powerGauge'' + 1"
proof -
  have flag: "map_of (initializingCharts in_flight) ''powerGauge'' = Some True"
    by code_simp
  have none: "pending_creations new_manager ''powerGauge'' = 0"
    by (simp add: pending_creations_def new_manager_def)
  have fresh: "map_of (initializingCharts new_manager) ''powerGauge'' \<noteq> Some True"
    by (simp add: new_manager_def)
  have ready: "\<forall>s. getElementById ready_env s ''powerGauge'' = Context2d
                 \<and> (\<forall>c. chart_ctor_ok ready_env s ''powerGauge'' c)"
    by (simp add: ready_env_def)
  from spawnChart_twice [of in_flight "''powerGauge''" ready_env options_only options_only] flag
  have noop: "spawnChart ready_env ''powerGauge'' options_only in_flight =
       (length (promises in_flight), in_flight\<lparr> promises := promises in_flight @ [True] \<rparr>)"
    by blast
  from spawnChart_twice [of new_manager "''powerGauge''" ready_env gaugeConfig options_only]
    none fresh ready
  have one: "constructions
        (run_until ready_env None
           (snd (spawnChart ready_env ''powerGauge'' options_only
                   (snd (spawnChart ready_env ''powerGauge'' gaugeConfig new_manager)))))
        ''powerGauge'' = constructions new_manager ''powerGauge'' + 1"
    unfolding Let_def by blast
  show ?thesis
    using flag noop none fresh ready one by blast
qed

text \<open>
  C7. \<^verbatim>\<open>spawnChart\<close> for an identifier that is not in flight, followed by the event loop
  running until no timer is left, which it always does: whatever the document and the
  constructor do on the way, the in-flight map then has no entry for the identifier and the
  promise that the call returned is resolved. No path raises: the constructor's exception
  is caught and logged, and \<^verbatim>\<open>destroy()\<close> and the console are taken not to throw.
\<close>

theorem spawnChart_settles:
  assumes "map_of (initializingCharts st) cid \<noteq> Some True"
  shows "p = fst (spawnChart e cid cfg st) \<and> st' = run_until e None (snd (spawnChart e cid cfg st))
         \<longrightarrow> p < length (promises st') \<and> promises st' ! p
             \<and> map_of (initializingCharts st') cid = None \<and> timers st' = []"
proof -
  have "settled cid (length (promises st)) (run_until e None (snd (spawnChart e cid cfg st)))"
    using spawnChart_in_progress(2) [OF assms, of e cfg] by (intro run_to_end_settled) simp
  then show ?thesis
    by (simp add: settled_def spawnChart_in_progress(1) [OF assms] timers_run_until_None)
qed

theorem spawnChart_settles_witness:
  "map_of (initializingCharts new_manager) ''powerGauge'' \<noteq> Some True
   \<and> fst (spawnChart ready_env ''powerGauge'' gaugeConfig new_manager) = 0
   \<and> promises (run_until ready_env None (snd (spawnChart ready_env ''powerGauge'' gaugeConfig new_manager))) ! 0
   \<and> map_of (initializingCharts
        (run_until ready_env None (snd (spawnChart ready_env ''powerGauge'' gaugeConfig new_manager))))
        ''powerGauge'' = None
   \<and> trace (run_until ready_env None (snd (spawnChart ready_env ''powerGauge'' gaugeConfig new_manager)))
       = [ChartConstruct 0 ''powerGauge'']
   \<and> promises (run_until throwing_env None (snd (spawnChart throwing_env ''powerGauge'' gaugeConfig new_manager))) ! 0
   \<and> map_of (initializingCharts
        (run_until throwing_env None (snd (spawnChart throwing_env ''powerGauge'' gaugeConfig new_manager))))
        ''powerGauge'' = None
   \<and> trace (run_until throwing_env None (snd (spawnChart throwing_env ''powerGauge'' gaugeConfig new_manager)))
       = [ConsoleError ''powerGauge'']
   \<and> promises (run_until no_canvas_env None (snd (spawnChart no_canvas_env ''powerGauge'' gaugeConfig new_manager))) ! 0
   \<and> map_of (initializingCharts
        (run_until no_canvas_env None (snd (spawnChart no_canvas_env ''powerGauge'' gaugeConfig new_manager))))
        ''powerGauge'' = None
   \<and> trace (run_until no_canvas_env None (snd (spawnChart no_canvas_env ''powerGauge'' gaugeConfig new_manager)))
       = [ConsoleWarn ''Canvas not found after retries'' ''powerGauge'']
   \<and> clock (run_until no_canvas_env None (snd (spawnChart no_canvas_env ''powerGauge'' gaugeConfig new_manager)))
       = 500
   \<and> promises (run_until no_context_env None (snd (spawnChart no_context_env ''powerGauge'' gaugeConfig new_manager))) ! 0
   \<and> map_of (initializingCharts
        (run_until no_context_env None (snd (spawnChart no_context_env ''powerGauge'' gaugeConfig new_manager))))
        ''powerGauge'' = None
   \<and> trace (run_until no_context_env None (snd (spawnChart no_context_env ''powerGauge'' gaugeConfig new_manager)))
       = [ConsoleWarn ''Cannot acquire context'' ''powerGauge'']
   \<and> clock (run_until no_context_env None (snd (spawnChart no_context_env ''powerGauge'' gaugeConfig new_manager)))
       = 2000"
proof -
  have fresh: "map_of (initializingCharts new_manager) ''powerGauge'' \<noteq> Some True"
    by (simp add: new_manager_def)
  have "length (promises new_manager) = 0"
    by (simp add: new_manager_def)
  then have p: "fst (spawnChart e ''powerGauge'' gaugeConfig new_manager) = 0" for e
    by (simp only: spawnChart_in_progress(1) [OF fresh])
  have settled: "promises (run_until e None (snd (spawnChart e ''powerGauge'' gaugeConfig new_manager))) ! 0
      \<and> map_of (initializingCharts
            (run_until e None (snd (spawnChart e ''powerGauge'' gaugeConfig new_manager))))
            ''powerGauge'' = None" for e
    using spawnChart_settles [OF fresh, of 0 e gaugeConfig
        "run_until e None (snd (spawnChart e ''powerGauge'' gaugeConfig new_manager))"] p [of e]
    by simp
  have t1: "trace (run_until ready_env None (snd (spawnChart ready_env ''powerGauge'' gaugeConfig new_manager)))
       = [ChartConstruct 0 ''powerGauge'']"
    by code_simp
  have t2: "trace (run_until throwing_env None (snd (spawnChart throwing_env ''powerGauge'' gaugeConfig new_manager)))
       = [ConsoleError ''powerGauge'']"
    by code_simp
  have t3: "trace (run_until no_canvas_env None (snd (spawnChart no_canvas_env ''powerGauge'' gaugeConfig new_manager)))
       = [ConsoleWarn ''Canvas not found after retries'' ''powerGauge'']"
    by code_simp
  have c3: "clock (run_until no_canvas_env None (snd (spawnChart no_canvas_env ''powerGauge'' gaugeConfig new_manager)))
       = 500"
    by code_simp
  have t4: "trace (run_until no_context_env None (snd (spawnChart no_context_env ''powerGauge'' gaugeConfig new_manager)))
       = [ConsoleWarn ''Cannot acquire context'' ''powerGauge'']"
    by code_simp
  have c4: "clock (run_until no_context_env None (snd (spawnChart no_context_env ''powerGauge'' gaugeConfig new_manager)))
       = 2000"
    by code_simp
  show ?thesis
    using fresh p [of ready_env] settled [of ready_env] settled [of throwing_env]
      settled [of no_canvas_env] settled [of no_context_env] t1 t2 t3 c3 t4 c4
    by blast
qed

section \<open>Replacing a chart\<close>

text \<open>
  C6. When \<^verbatim>\<open>tryCreateChart\<close> finds the canvas with its context and a handle is registered
  for the identifier, that step calls \<^verbatim>\<open>destroy()\<close> on the old handle, removes it from the
  registry and constructs nothing: the construction is handed to a timer with the delay 0,
  and it is that timer's callback which constructs the new chart and registers it. In
  every state that a manager can reach, by calls of its methods, resize events and timers
  firing in any environment, at most one chart per canvas is constructed and not destroyed.
\<close>

theorem teardown_before_construction:
  "(getElementById e st cid = Context2d \<and> map_of (chartInstances st) cid = Some h \<longrightarrow>
      trace (tryCreateChart e cid cfg p n st) = trace st @ [ChartDestroy h]
    \<and> heap (tryCreateChart e cid cfg p n st) = mark_destroyed h (heap st)
    \<and> map_of (chartInstances (tryCreateChart e cid cfg p n st)) cid = None
    \<and> timers (tryCreateChart e cid cfg p n st) =
         enqueue (next_timer st, clock st + 0, CreateChart cid cfg p) (timers st))
   \<and> (chart_ctor_ok e st cid cfg \<longrightarrow>
        trace (createChart e cid cfg p st) = trace st @ [ChartConstruct (length (heap st)) cid]
      \<and> map_of (chartInstances (createChart e cid cfg p st)) cid = Some (length (heap st)))
   \<and> length (live_handles (run_script e script new_manager) c) \<le> 1"
proof (intro conjI impI)
  assume a: "getElementById e st cid = Context2d \<and> map_of (chartInstances st) cid = Some h"
  then have eq: "tryCreateChart e cid cfg p n st =
        st\<lparr> heap := mark_destroyed h (heap st),
            trace := trace st @ [ChartDestroy h],
            chartInstances := AList.delete cid (chartInstances st),
            timers := enqueue (next_timer st, clock st, CreateChart cid cfg p) (timers st),
            next_timer := Suc (next_timer st) \<rparr>"
    by (cases rule: tryCreateChart_cases [of e cid cfg p n st]) auto
  show "trace (tryCreateChart e cid cfg p n st) = trace st @ [ChartDestroy h]"
    by (simp add: eq)
  show "heap (tryCreateChart e cid cfg p n st) = mark_destroyed h (heap st)"
    by (simp add: eq)
  show "map_of (chartInstances (tryCreateChart e cid cfg p n st)) cid = None"
    by (simp add: eq delete_conv')
  show "timers (tryCreateChart e cid cfg p n st) =
         enqueue (next_timer st, clock st + 0, CreateChart cid cfg p) (timers st)"
    by (simp add: eq)
next
  assume ok: "chart_ctor_ok e st cid cfg"
  then have eq: "createChart e cid cfg p st =
        st\<lparr> heap := heap st @
               [\<lparr> canvas_id = cid,
                  chart_options = (case cfg_options cfg of None \<Rightarrow> [] | Some os \<Rightarrow> os),
                  chart_data = cfg_data cfg, destroyed = False \<rparr>],
            trace := trace st @ [ChartConstruct (length (heap st)) cid],
            chartInstances := AList.update cid (length (heap st)) (chartInstances st),
            initializingCharts := AList.delete cid (initializingCharts st),
            promises := (promises st)[p := True] \<rparr>"
    by (cases rule: createChart_cases [of e cid cfg p st]) auto
  show "trace (createChart e cid cfg p st) = trace st @ [ChartConstruct (length (heap st)) cid]"
    by (simp add: eq)
  show "map_of (chartInstances (createChart e cid cfg p st)) cid = Some (length (heap st))"
    by (simp add: eq update_conv')
next
  show "length (live_handles (run_script e script new_manager) c) \<le> 1"
    by (intro consistent_live_handles run_script_consistent consistent_new_manager)
qed

theorem teardown_before_construction_witness:
  "getElementById ready_env gauge_running ''powerGauge'' = Context2d
   \<and> map_of (chartInstances gauge_running) ''powerGauge'' = Some 0
   \<and> trace gauge_running = [ChartConstruct 0 ''powerGauge'']
   \<and> trace (tryCreateChart ready_env ''powerGauge'' gaugeConfig 1 0 gauge_running) =
       trace gauge_running @ [ChartDestroy 0]
   \<and> map_of (chartInstances (tryCreateChart ready_env ''powerGauge'' gaugeConfig 1 0 gauge_running))
        ''powerGauge'' = None
   \<and> timers (tryCreateChart ready_env ''powerGauge'' gaugeConfig 1 0 gauge_running) =
       [(2, 0, CreateChart ''powerGauge'' gaugeConfig 1)]
   \<and> chart_ctor_ok ready_env gauge_running ''powerGauge'' gaugeConfig
   \<and> trace (run_script ready_env respawn new_manager) =
       [ChartConstruct 0 ''powerGauge'', ChartDestroy 0, ChartConstruct 1 ''powerGauge'']
   \<and> live_handles (run_script ready_env respawn new_manager) ''powerGauge'' = [1]
   \<and> length (live_handles (run_script ready_env respawn new_manager) ''powerGauge'') \<le> 1"
proof -
  have found: "getElementById ready_env gauge_running ''powerGauge'' = Context2d"
    by (simp add: ready_env_def)
  have registered: "map_of (chartInstances gauge_running) ''powerGauge'' = Some 0"
    by code_simp
  have ok: "chart_ctor_ok ready_env gauge_running ''powerGauge'' gaugeConfig"
    by (simp add: ready_env_def)
  note inst = teardown_before_construction
    [where e = ready_env and st = gauge_running and cid = "''powerGauge''" and h = 0
       and cfg = gaugeConfig and p = 1 and n = 0 and script = respawn and c = "''powerGauge''"]
  from inst found registered
  have step: "trace (tryCreateChart ready_env ''powerGauge'' gaugeConfig 1 0 gauge_running) =
       trace gauge_running @ [ChartDestroy 0]
     \<and> map_of (chartInstances (tryCreateChart ready_env ''powerGauge'' gaugeConfig 1 0 gauge_running))
        ''powerGauge'' = None
     \<and> timers (tryCreateChart ready_env ''powerGauge'' gaugeConfig 1 0 gauge_running) =
         enqueue (next_timer gauge_running, clock gauge_running + 0,
                  CreateChart ''powerGauge'' gaugeConfig 1) (timers gauge_running)"
    by blast
  from inst have one: "length (live_handles (run_script ready_env respawn new_manager) ''powerGauge'') \<le> 1"
    by blast
  have queue: "enqueue (next_timer gauge_running, clock gauge_running + 0,
                  CreateChart ''powerGauge'' gaugeConfig 1) (timers gauge_running)
               = [(2, 0, CreateChart ''powerGauge'' gaugeConfig 1)]"
    by code_simp
  have tr0: "trace gauge_running = [ChartConstruct 0 ''powerGauge'']"
    by code_simp
  have tr: "trace (run_script ready_env respawn new_manager) =
       [ChartConstruct 0 ''powerGauge'', ChartDestroy 0, ChartConstruct 1 ''powerGauge'']"
    by code_simp
  have live: "live_handles (run_script ready_env respawn new_manager) ''powerGauge'' = [1]"
    by code_simp
  show ?thesis
    using found registered ok step one queue tr0 tr live by simp
qed

section \<open>Updating a chart\<close>

lemma map_of_object_assign:
  "map_of (object_assign target source) = map_of target ++ map_of (rev source)"
proof (induction source arbitrary: target)
  case Nil
  then show ?case by (simp add: object_assign_def)
next
  case (Cons kv source)
  obtain k v where kv: "kv = (k, v)" by (cases kv)
  have "map_of (object_assign target (kv # source)) =
          map_of (object_assign (AList.update k v target) source)"
    by (simp add: object_assign_def kv)
  also have "\<dots> = map_of (AList.update k v target) ++ map_of (rev source)"
    by (rule Cons.IH)
  also have "\<dots> = map_of target ++ map_of (rev (kv # source))"
    by (simp add: kv update_conv' map_add_upd_left)
  finally show ?case .
qed

text \<open>
  C8. \<^verbatim>\<open>updateChartConfig\<close> for an identifier without a registered handle changes nothing:
  it only returns a resolved promise. For a registered handle it leaves the registry, the
  in-flight flags, the timers and every other chart as they are, writes the supplied
  options over the chart's options key by key (a supplied key wins, the other keys stay),
  replaces the data only when data is supplied, and requests one redraw.
\<close>

theorem updateChartConfig_effect:
  "(map_of (chartInstances st) cid = None \<longrightarrow>
      updateChartConfig cid cfg st = (length (promises st), st\<lparr> promises := promises st @ [True] \<rparr>))
   \<and> (map_of (chartInstances st) cid = Some h \<and> h < length (heap st) \<longrightarrow>
        (let st' = snd (updateChartConfig cid cfg st) in
           chartInstances st' = chartInstances st
         \<and> initializingCharts st' = initializingCharts st
         \<and> timers st' = timers st
         \<and> promises st' = promises st @ [True]
         \<and> trace st' = trace st @ [ChartUpdate h None]
         \<and> length (heap st') = length (heap st)
         \<and> (\<forall>h'. h' \<noteq> h \<longrightarrow> heap st' ! h' = heap st ! h')
         \<and> canvas_id (heap st' ! h) = canvas_id (heap st ! h)
         \<and> destroyed (heap st' ! h) = destroyed (heap st ! h)
         \<and> map_of (chart_options (heap st' ! h)) =
             map_of (chart_options (heap st ! h))
               ++ map_of (rev (case cfg_options cfg of None \<Rightarrow> [] | Some os \<Rightarrow> os))
         \<and> chart_data (heap st' ! h) =
             (case cfg_data cfg of None \<Rightarrow> chart_data (heap st ! h) | Some d \<Rightarrow> Some d)))"
  by (simp add: updateChartConfig_def new_promise_def chart_update_def emit_def Let_def
        map_of_object_assign)

theorem updateChartConfig_effect_witness:
  "map_of (chartInstances gauge_running) ''absent'' = None
   \<and> updateChartConfig ''absent'' options_only gauge_running =
       (length (promises gauge_running),
        gauge_running\<lparr> promises := promises gauge_running @ [True] \<rparr>)
   \<and> map_of (chartInstances gauge_running) ''powerGauge'' = Some 0
   \<and> 0 < length (heap gauge_running)
   \<and> trace (snd (updateChartConfig ''powerGauge'' options_only gauge_running)) =
       [ChartConstruct 0 ''powerGauge'', ChartUpdate 0 None]
   \<and> chart_data (heap (snd (updateChartConfig ''powerGauge'' options_only gauge_running)) ! 0) =
       chart_data (heap gauge_running ! 0)
   \<and> chart_options (heap (snd (updateChartConfig ''powerGauge'' options_only gauge_running)) ! 0) =
       [(''responsive'', Bool False), (''maintainAspectRatio'', Bool False),
        (''plugins'', Obj [(''legend'', Obj [(''display'', Bool False)]),
                          (''tooltip'', Obj [(''enabled'', Bool False)])]),
        (''animation'', Bool False)]"
proof -
  have absent: "map_of (chartInstances gauge_running) ''absent'' = None"
    by code_simp
  have present: "map_of (chartInstances gauge_running) ''powerGauge'' = Some 0 \<and> 0 < length (heap gauge_running)"
    by code_simp
  have noop: "updateChartConfig ''absent'' options_only gauge_running =
       (length (promises gauge_running),
        gauge_running\<lparr> promises := promises gauge_running @ [True] \<rparr>)"
    using updateChartConfig_effect [of gauge_running "''absent''" options_only 0] absent by blast
  have upd: "trace (snd (updateChartConfig ''powerGauge'' options_only gauge_running)) =
               trace gauge_running @ [ChartUpdate 0 None]
     \<and> chart_data (heap (snd (updateChartConfig ''powerGauge'' options_only gauge_running)) ! 0) =
         (case cfg_data options_only of None \<Rightarrow> chart_data (heap gauge_running ! 0) | Some d \<Rightarrow> Some d)"
    using updateChartConfig_effect [of gauge_running "''powerGauge''" options_only 0] present
    by (simp add: Let_def)
  have tr: "trace gauge_running = [ChartConstruct 0 ''powerGauge'']"
    by code_simp
  have nodata: "cfg_data options_only = None"
    by (simp add: options_only_def)
  have opts: "chart_options (heap (snd (updateChartConfig ''powerGauge'' options_only gauge_running)) ! 0) =
       [(''responsive'', Bool False), (''maintainAspectRatio'', Bool False),
        (''plugins'', Obj [(''legend'', Obj [(''display'', Bool False)]),
                          (''tooltip'', Obj [(''enabled'', Bool False)])]),
        (''animation'', Bool False)]"
    by code_simp
  show ?thesis
    using absent present noop upd tr nodata opts by simp
qed

section \<open>Disposal during a retry\<close>

text \<open>
  C9, as the claim states it, fails. The manager is disposed at 10 ms: the registry is empty
  and the retry is still scheduled. When the retry fires at 50 ms it finds the canvas and
  schedules the construction, which constructs a chart and registers it.
\<close>

theorem orphaned_retry_constructs:
  "chartInstances (dispose retry_scheduled) = []
   \<and> timers (dispose retry_scheduled) = [(1, 50, TryCreateChart ''powerGauge'' gaugeConfig 0 1)]
   \<and> timers (fire late_canvas_env (dispose retry_scheduled))
       = [(2, 50, CreateChart ''powerGauge'' gaugeConfig 0)]
   \<and> chartInstances (run_until late_canvas_env None (dispose retry_scheduled)) = [(''powerGauge'', 0)]
   \<and> trace (run_until late_canvas_env None (dispose retry_scheduled)) = [ChartConstruct 0 ''powerGauge'']
   \<and> live_handles (run_until late_canvas_env None (dispose retry_scheduled)) ''powerGauge'' = [0]"
  by code_simp

text \<open>
  C9, amended. \<^verbatim>\<open>dispose\<close> empties the registry and cancels nothing: the timers and the
  in-flight flags stay as they are. A creation for an identifier that is still scheduled
  goes on like any other: when the canvas and its context are there and the constructor
  returns, it ends with a newly constructed chart registered under the identifier.
\<close>

theorem dispose_keeps_retry:
  "timers (dispose st) = timers st
   \<and> initializingCharts (dispose st) = initializingCharts st
   \<and> chartInstances (dispose st) = []
   \<and> (0 < pending_creations st cid
        \<and> (\<forall>s. getElementById e s cid = Context2d \<and> (\<forall>c. chart_ctor_ok e s cid c))
      \<longrightarrow> map_of (chartInstances (run_until e None (dispose st))) cid \<noteq> None
          \<and> constructions st cid < constructions (run_until e None (dispose st)) cid)"
proof -
  have "map_of (chartInstances (run_until e None (dispose st))) cid \<noteq> None
          \<and> constructions st cid < constructions (run_until e None (dispose st)) cid"
    if pending: "0 < pending_creations st cid"
      and ready: "\<forall>s. getElementById e s cid = Context2d \<and> (\<forall>c. chart_ctor_ok e s cid c)"
  proof -
    have "progressing (constructions st cid) cid (dispose st)"
      using pending by (simp add: progressing_def dispose_frame)
    from run_to_end_progressing [OF ready this] show ?thesis .
  qed
  then show ?thesis by (simp add: dispose_frame)
qed

theorem dispose_keeps_retry_witness:
  "0 < pending_creations retry_scheduled ''powerGauge''
   \<and> (\<forall>s. getElementById ready_env s ''powerGauge'' = Context2d
            \<and> (\<forall>c. chart_ctor_ok ready_env s ''powerGauge'' c))
   \<and> timers (dispose retry_scheduled) = timers retry_scheduled
   \<and> map_of (chartInstances (run_until ready_env None (dispose retry_scheduled))) ''powerGauge'' \<noteq> None
   \<and> constructions retry_scheduled ''powerGauge''
       < constructions (run_until ready_env None (dispose retry_scheduled)) ''powerGauge''"
proof -
  have pending: "0 < pending_creations retry_scheduled ''powerGauge''"
    by code_simp
  have ready: "\<forall>s. getElementById ready_env s ''powerGauge'' = Context2d
                 \<and> (\<forall>c. chart_ctor_ok ready_env s ''powerGauge'' c)"
    by (simp add: ready_env_def)
  show ?thesis
    using dispose_keeps_retry [of retry_scheduled "''powerGauge''" ready_env] pending ready
    by blast
qed

section \<open>The resize listener\<close>

text \<open>
  C1. In every state the resize handler arms one more timer and clears none: it makes a
  new debounced function, with its own \<^verbatim>\<open>timeoutId\<close>, on every event. So for the burst of
  five events that ends at 80 ms, with the delay 200, \<^verbatim>\<open>resizeCharts\<close> is called five times,
  200 ms after each of the five events, the first time 120 ms after the last event.
\<close>

theorem resize_burst_fires_five_times:
  "timers (resizeHandler_body delay st) =
     enqueue (next_timer st, clock st + delay, DebounceFire (length (cells st))) (timers st)
   \<and> trace (run_script ready_env resize_burst new_manager) =
       [ResizeChartsCalled 200, ResizeChartsCalled 220, ResizeChartsCalled 240,
        ResizeChartsCalled 260, ResizeChartsCalled 280]"
proof
  show "timers (resizeHandler_body delay st) =
     enqueue (next_timer st, clock st + delay, DebounceFire (length (cells st))) (timers st)"
    by (simp add: resizeHandler_body_eq)
  show "trace (run_script ready_env resize_burst new_manager) =
       [ResizeChartsCalled 200, ResizeChartsCalled 220, ResizeChartsCalled 240,
        ResizeChartsCalled 260, ResizeChartsCalled 280]"
    by code_simp
qed

section \<open>The watcher of the pointer value\<close>

lemma initChart_reads_empty_registry:
  "chartInstance (initChart e c) = None"
proof -
  have "chartInstances (snd (spawnChart e ''powerGauge'' gaugeConfig (dispose (chartManager c)))) = []"
    using spawnChart_counts(3) [of e "''powerGauge''" gaugeConfig "dispose (chartManager c)"]
    by (auto simp: dispose_frame)
  then show ?thesis
    by (simp add: initChart_def getChart_def Let_def case_prod_beta)
qed

text \<open>
  C4. \<^verbatim>\<open>initChart\<close> reads \<^verbatim>\<open>chartInstance\<close> from the registry right after \<^verbatim>\<open>dispose\<close> has
  emptied it and before any timer has run, so \<^verbatim>\<open>chartInstance\<close> is null; whatever the
  manager's state \<open>s\<close> becomes afterwards, an assignment to the value leaves it as it is: no
  redraw is requested. In particular, when the component is mounted with the canvas in the
  document and the value 1.4 and the timers run, the chart is constructed and registered,
  and a change of the value to 2 adds nothing to the trace.
\<close>

theorem value_change_requests_no_redraw:
  "chartManager (set_value v ((initChart e c)\<lparr> chartManager := s \<rparr>)) = s
   \<and> (let c = mount ready_env 1.4;
          c' = c\<lparr> chartManager := run_until ready_env None (chartManager c) \<rparr>
      in getChart (chartManager c') ''powerGauge'' = Some 0
         \<and> live_handles (chartManager c') ''powerGauge'' = [0]
         \<and> chartInstance c' = None
         \<and> trace (chartManager c') = [ChartConstruct 0 ''powerGauge'']
         \<and> trace (chartManager (set_value 2 c')) = [ChartConstruct 0 ''powerGauge''])"
proof
  show "chartManager (set_value v ((initChart e c)\<lparr> chartManager := s \<rparr>)) = s"
    by (simp add: set_value_def watch_callback_def initChart_reads_empty_registry)
  show "let c = mount ready_env 1.4;
          c' = c\<lparr> chartManager := run_until ready_env None (chartManager c) \<rparr>
      in getChart (chartManager c') ''powerGauge'' = Some 0
         \<and> live_handles (chartManager c') ''powerGauge'' = [0]
         \<and> chartInstance c' = None
         \<and> trace (chartManager c') = [ChartConstruct 0 ''powerGauge'']
         \<and> trace (chartManager (set_value 2 c')) = [ChartConstruct 0 ''powerGauge'']"
    by code_simp
qed

section \<open>The tick sequence\<close>

lemma length_sub_ticks [simp]: "length (sub_ticks a b k) = k - 1"
  by (simp add: sub_ticks_def)

lemma tick_values_prefix:
  "n \<le> length M \<Longrightarrow>
   foldl (tick_round M k) [] [0..<Suc n] =
     M ! 0 # concat (map (\<lambda>i. M ! i # sub_ticks (M ! (i - 1)) (M ! i) k) [1..<Suc n])"
proof (induction n)
  case 0
  then show ?case by (simp add: tick_round_def)
next
  case (Suc n)
  then show ?case by (simp add: tick_round_def)
qed

lemma tick_values_shape:
  assumes "M \<noteq> []"
  shows "tick_values M k =
     M ! 0 # concat (map (\<lambda>i. M ! i # sub_ticks (M ! (i - 1)) (M ! i) k) [1..<length M])"
proof -
  from assms obtain n where n: "length M = Suc n" by (cases M) auto
  then show ?thesis using tick_values_prefix [of n M k] by (simp add: tick_values_def)
qed

lemma length_concat_blocks:
  "length (concat (map (\<lambda>i. M ! i # sub_ticks (M ! (i - 1)) (M ! i) k) xs)) = length xs * Suc (k - 1)"
  by (induction xs) auto

text \<open>
  C2, as the claim states it, fails: for the major ticks 1, 2 and two subdivisions the
  sequence is 1, 2, 1.5. The interpolated value comes after the major value that ends its
  interval, so the sequence is not increasing.
\<close>

theorem tick_values_not_increasing:
  "tick_values [1, 2] 2 = [1, 2, 1.5] \<and> \<not> sorted_wrt (<) (tick_values [1, 2] 2)"
  by code_simp

text \<open>
  C2, amended. For a non-empty list \<open>M\<close> of major ticks and \<open>k \<ge> 1\<close> the sequence has
  length \<open>|M| + (|M| - 1) (k - 1)\<close>. It is the first major value, followed for each later
  major value by that value and then the \<open>k - 1\<close> values interpolated between its
  predecessor and itself, each rounded to two decimals.
\<close>

theorem tick_values_length_shape:
  assumes "M \<noteq> []" and "1 \<le> k"
  shows "int (length (tick_values M k)) = int (length M) + (int (length M) - 1) * (int k - 1)
       \<and> tick_values M k =
           M ! 0 # concat (map (\<lambda>i. M ! i # sub_ticks (M ! (i - 1)) (M ! i) k) [1..<length M])
       \<and> length (sub_ticks x y k) = k - 1"
proof -
  from assms obtain n where n: "length M = Suc n" by (cases M) auto
  from assms obtain j where j: "k = Suc j" by (cases k) auto
  note shape = tick_values_shape [OF assms(1), of k]
  have "length (tick_values M k) =
          length (M ! 0 # concat (map (\<lambda>i. M ! i # sub_ticks (M ! (i - 1)) (M ! i) k) [1..<length M]))"
    by (rule arg_cong [OF shape])
  also have "\<dots> = Suc (length [1..<length M] * Suc (k - 1))"
    by (simp only: length_Cons length_concat_blocks)
  also have "\<dots> = Suc (n * Suc j)"
    using n j by simp
  finally have "int (length (tick_values M k)) = int (length M) + (int (length M) - 1) * (int k - 1)"
    using n j by (simp add: algebra_simps)
  then show ?thesis using shape by simp
qed

theorem tick_values_length_shape_witness:
  "majorTickValues \<noteq> [] \<and> 1 \<le> subStepCount
   \<and> int (length fullTickValues) = 11 + (11 - 1) * (4 - 1)
   \<and> take 5 fullTickValues = [1, 1.2, 1.05, 1.1, 1.15]"
proof -
  have a: "majorTickValues \<noteq> []" by (simp add: majorTickValues_def)
  have b: "1 \<le> subStepCount" by (simp add: subStepCount_def)
  have l: "length majorTickValues = 11" by (simp add: majorTickValues_def)
  have "int (length (tick_values majorTickValues subStepCount))
          = int (length majorTickValues) + (int (length majorTickValues) - 1) * (int subStepCount - 1)"
    using tick_values_length_shape [OF a b, of 0 0] by (rule conjunct1)
  then have "int (length fullTickValues) = 11 + (11 - 1) * (4 - 1)"
    by (simp only: l fullTickValues_def subStepCount_def) simp
  moreover have "take 5 fullTickValues = [1, 1.2, 1.05, 1.1, 1.15]" by code_simp
  ultimately show ?thesis using a b by simp
qed

section \<open>The overlay\<close>

text \<open>
  C10. The overlay draws nothing exactly when the first arc element is absent or the
  centre's x or y coordinate is 0: the test \<^verbatim>\<open>if (!x || !y) return\<close> takes the coordinate 0
  for a missing one, so a chart whose centre lies at 0 on an axis gets no ticks, labels or
  pointer. In every other case something is drawn.
\<close>

theorem afterDraw_silent:
  "afterDraw first_arc ds v = [] \<longleftrightarrow>
     (case first_arc of None \<Rightarrow> True | Some a \<Rightarrow> arc_x a = 0 \<or> arc_y a = 0)"
  by (simp add: afterDraw_def split: option.splits)

theorem afterDraw_silent_witness:
  "afterDraw (Some \<lparr> arc_x = 0, arc_y = 150, innerRadius = 100 \<rparr>)
     \<lparr> rotation = Some 260, circumference = Some 200 \<rparr> 1.4 = []
   \<and> afterDraw (Some \<lparr> arc_x = 150, arc_y = 0, innerRadius = 100 \<rparr>)
     \<lparr> rotation = Some 260, circumference = Some 200 \<rparr> 1.4 = []
   \<and> afterDraw None \<lparr> rotation = Some 260, circumference = Some 200 \<rparr> 1.4 = []
   \<and> afterDraw (Some \<lparr> arc_x = 150, arc_y = 150, innerRadius = 100 \<rparr>)
     \<lparr> rotation = Some 260, circumference = Some 200 \<rparr> 1.4 \<noteq> []"
  using
    afterDraw_silent [of "Some \<lparr> arc_x = 0, arc_y = 150, innerRadius = 100 \<rparr>"
      "\<lparr> rotation = Some 260, circumference = Some 200 \<rparr>" "1.4"]
    afterDraw_silent [of "Some \<lparr> arc_x = 150, arc_y = 0, innerRadius = 100 \<rparr>"
      "\<lparr> rotation = Some 260, circumference = Some 200 \<rparr>" "1.4"]
    afterDraw_silent [of None "\<lparr> rotation = Some 260, circumference = Some 200 \<rparr>" "1.4"]
    afterDraw_silent [of "Some \<lparr> arc_x = 150, arc_y = 150, innerRadius = 100 \<rparr>"
      "\<lparr> rotation = Some 260, circumference = Some 200 \<rparr>" "1.4"]
  by simp

text \<open>
  C3, as the claim states it, fails. For rotation 260, circumference 200 and the pointer
  value 1.4 the angle that the routine computes is not
  \<open>260 \<pi> / 180 + ((1.4 - 1) / (3 - 1)) (200 \<pi> / 180)\<close>: the rotation is not converted from
  degrees to radians with the factor \<open>\<pi> / 180\<close>.
\<close>

theorem pointerAngle_not_from_degrees:
  "pointerAngle \<lparr> rotation = Some 260, circumference = Some 200 \<rparr> 1.4
     \<noteq> (260 * pi) / 180 + ((1.4 - 1) / (3 - 1)) * ((200 * pi) / 180)"
  using pi_gt_zero
  by (simp add: pointerAngle_def rotationRad_def circumferenceRad_def minValue_def maxValue_def)

text \<open>
  C3, amended. The routine turns the dataset's rotation into the start angle
  \<open>rotation \<pi> / 88.4\<close> (0 when the dataset has no rotation) and its circumference into the
  sweep \<open>circumference \<pi> / 180\<close> (that of 360 when it has none), once, and the pointer angle
  is the start angle plus \<open>(value - 1) / (3 - 1)\<close> of the sweep; for rotation 260,
  circumference 200 and the value 1.4 it is
  \<open>260 \<pi> / 88.4 + ((1.4 - 1) / (3 - 1)) (200 \<pi> / 180)\<close>. The ticks start from the same start
  angle, and when the centre is not at 0 on an axis the needle is drawn from the centre to
  the point at the distance \<open>innerRadius - 45\<close> along the pointer angle.
\<close>

theorem pointerAngle_formula:
  "pointerAngle ds v =
     ((case rotation ds of None \<Rightarrow> 0 | Some r \<Rightarrow> r) * pi) / 88.4
       + ((v - 1) / (3 - 1)) * (((case circumference ds of None \<Rightarrow> 360 | Some c \<Rightarrow> c) * pi) / 180)
   \<and> pointerAngle \<lparr> rotation = Some 260, circumference = Some 200 \<rparr> 1.4
       = (260 * pi) / 88.4 + ((1.4 - 1) / (3 - 1)) * ((200 * pi) / 180)
   \<and> (arc_x a \<noteq> 0 \<and> arc_y a \<noteq> 0 \<longrightarrow>
        (\<exists>ticks. afterDraw (Some a) ds v =
           [Save, LineWidth 2, StrokeStyle ''#ffffff88'', FillStyle ''#fff'', Font ''12px Arial'',
            TextAlign ''center'', TextBaseline ''middle'']
           @ ticks
           @ [LineWidth 3, StrokeStyle ''#fff'', BeginPath, MoveTo (arc_x a) (arc_y a),
              LineTo (arc_x a + (innerRadius a - 45) * cos (pointerAngle ds v))
                     (arc_y a + (innerRadius a - 45) * sin (pointerAngle ds v)),
              Stroke, FillStyle ''#fff'', BeginPath, ArcTo (arc_x a) (arc_y a) 5 0 (pi * 2), Fill,
              Restore]
         \<and> ticks = snd (foldl (segment_round a (circumferenceRad ds)) (rotationRad ds, []) segments)))"
proof (intro conjI impI)
  show "pointerAngle ds v =
     ((case rotation ds of None \<Rightarrow> 0 | Some r \<Rightarrow> r) * pi) / 88.4
       + ((v - 1) / (3 - 1)) * (((case circumference ds of None \<Rightarrow> 360 | Some c \<Rightarrow> c) * pi) / 180)"
    by (simp add: pointerAngle_def rotationRad_def circumferenceRad_def minValue_def maxValue_def)
  show "pointerAngle \<lparr> rotation = Some 260, circumference = Some 200 \<rparr> 1.4
       = (260 * pi) / 88.4 + ((1.4 - 1) / (3 - 1)) * ((200 * pi) / 180)"
    by (simp add: pointerAngle_def rotationRad_def circumferenceRad_def minValue_def maxValue_def)
next
  assume "arc_x a \<noteq> 0 \<and> arc_y a \<noteq> 0"
  then show "\<exists>ticks. afterDraw (Some a) ds v =
           [Save, LineWidth 2, StrokeStyle ''#ffffff88'', FillStyle ''#fff'', Font ''12px Arial'',
            TextAlign ''center'', TextBaseline ''middle'']
           @ ticks
           @ [LineWidth 3, StrokeStyle ''#fff'', BeginPath, MoveTo (arc_x a) (arc_y a),
              LineTo (arc_x a + (innerRadius a - 45) * cos (pointerAngle ds v))
                     (arc_y a + (innerRadius a - 45) * sin (pointerAngle ds v)),
              Stroke, FillStyle ''#fff'', BeginPath, ArcTo (arc_x a) (arc_y a) 5 0 (pi * 2), Fill,
              Restore]
         \<and> ticks = snd (foldl (segment_round a (circumferenceRad ds)) (rotationRad ds, []) segments)"
    by (simp add: afterDraw_def pointer_def Let_def)
qed

theorem pointerAngle_formula_witness:
  "arc_x \<lparr> arc_x = 150, arc_y = 150, innerRadius = 100 \<rparr> \<noteq> 0
   \<and> arc_y \<lparr> arc_x = 150, arc_y = 150, innerRadius = 100 \<rparr> \<noteq> 0
   \<and> pointerAngle \<lparr> rotation = Some 260, circumference = Some 200 \<rparr> 1.4
       = (260 * pi) / 88.4 + ((1.4 - 1) / (3 - 1)) * ((200 * pi) / 180)
   \<and> LineTo (150 + (100 - 45) * cos ((260 * pi) / 88.4 + ((1.4 - 1) / (3 - 1)) * ((200 * pi) / 180)))
             (150 + (100 - 45) * sin ((260 * pi) / 88.4 + ((1.4 - 1) / (3 - 1)) * ((200 * pi) / 180)))
       \<in> set (afterDraw (Some \<lparr> arc_x = 150, arc_y = 150, innerRadius = 100 \<rparr>)
                 \<lparr> rotation = Some 260, circumference = Some 200 \<rparr> 1.4)"
proof -
  note inst = pointerAngle_formula
    [where ds = "\<lparr> rotation = Some 260, circumference = Some 200 \<rparr>" and v = "1.4"
       and a = "\<lparr> arc_x = 150, arc_y = 150, innerRadius = 100 \<rparr>"]
  have centre: "arc_x \<lparr> arc_x = 150, arc_y = 150, innerRadius = 100 \<rparr> \<noteq> 0
     \<and> arc_y \<lparr> arc_x = 150, arc_y = 150, innerRadius = 100 \<rparr> \<noteq> 0"
    by simp
  from inst have angle: "pointerAngle \<lparr> rotation = Some 260, circumference = Some 200 \<rparr> 1.4
       = (260 * pi) / 88.4 + ((1.4 - 1) / (3 - 1)) * ((200 * pi) / 180)"
    by blast
  from inst centre obtain ticks where
    "afterDraw (Some \<lparr> arc_x = 150, arc_y = 150, innerRadius = 100 \<rparr>)
         \<lparr> rotation = Some 260, circumference = Some 200 \<rparr> 1.4 =
       [Save, LineWidth 2, StrokeStyle ''#ffffff88'', FillStyle ''#fff'', Font ''12px Arial'',
        TextAlign ''center'', TextBaseline ''middle'']
       @ ticks
       @ [LineWidth 3, StrokeStyle ''#fff'', BeginPath,
          MoveTo (arc_x \<lparr> arc_x = 150, arc_y = 150, innerRadius = 100 \<rparr>)
                 (arc_y \<lparr> arc_x = 150, arc_y = 150, innerRadius = 100 \<rparr>),
          LineTo (arc_x \<lparr> arc_x = 150, arc_y = 150, innerRadius = 100 \<rparr>
                    + (innerRadius \<lparr> arc_x = 150, arc_y = 150, innerRadius = 100 \<rparr> - 45)
                      * cos (pointerAngle \<lparr> rotation = Some 260, circumference = Some 200 \<rparr> 1.4))
                 (arc_y \<lparr> arc_x = 150, arc_y = 150, innerRadius = 100 \<rparr>
                    + (innerRadius \<lparr> arc_x = 150, arc_y = 150, innerRadius = 100 \<rparr> - 45)
                      * sin (pointerAngle \<lparr> rotation = Some 260, circumference = Some 200 \<rparr> 1.4)),
          Stroke, FillStyle ''#fff'', BeginPath,
          ArcTo (arc_x \<lparr> arc_x = 150, arc_y = 150, innerRadius = 100 \<rparr>)
                (arc_y \<lparr> arc_x = 150, arc_y = 150, innerRadius = 100 \<rparr>) 5 0 (pi * 2), Fill,
          Restore]"
    by blast
  then have "LineTo (150 + (100 - 45) * cos (pointerAngle \<lparr> rotation = Some 260, circumference = Some 200 \<rparr> 1.4))
             (150 + (100 - 45) * sin (pointerAngle \<lparr> rotation = Some 260, circumference = Some 200 \<rparr> 1.4))
       \<in> set (afterDraw (Some \<lparr> arc_x = 150, arc_y = 150, innerRadius = 100 \<rparr>)
                 \<lparr> rotation = Some 260, circumference = Some 200 \<rparr> 1.4)"
    by simp
  then have "LineTo (150 + (100 - 45) * cos ((260 * pi) / 88.4 + ((1.4 - 1) / (3 - 1)) * ((200 * pi) / 180)))
             (150 + (100 - 45) * sin ((260 * pi) / 88.4 + ((1.4 - 1) / (3 - 1)) * ((200 * pi) / 180)))
       \<in> set (afterDraw (Some \<lparr> arc_x = 150, arc_y = 150, innerRadius = 100 \<rparr>)
                 \<lparr> rotation = Some 260, circumference = Some 200 \<rparr> 1.4)"
    by (simp only: angle)
  with centre angle show ?thesis by blast
qed

end
